theory Spec2Isabelle
  imports Main
begin

section \<open>Data model of the chunk transfer server (server.js)\<close>

text \<open>
  Socket ids, transfer ids, file names and paths are JavaScript strings; chunk payloads are
  byte sequences. A value that may be \<open>null\<close> or \<open>undefined\<close> is an \<open>option\<close>.
  Chunk indices, sizes and clock readings (\<open>Date.now()\<close>) are natural numbers.
\<close>

type_synonym socket_id = string
type_synonym bytes = string

datatype status = Waiting | Connected | Uploading | Completed

datatype role = Sender | Receiver

record file_info =
  fileName :: string
  fileSize :: nat
  fileType :: string
  totalChunks :: nat
  uploadStartTime :: nat

text \<open>One element of \<open>session.chunks\<close>: \<open>{index, path, size, timestamp}\<close>.\<close>

record chunk_meta =
  index :: nat
  path :: string
  chunk_size :: nat
  timestamp :: nat

record session =
  transferId :: string
  sender :: socket_id
  receiver :: "socket_id option"
  chunks :: "chunk_meta list"
  fileInfo :: "file_info option"
  startTime :: nat
  status :: status
  completedAt :: "nat option"

text \<open>A value of \<open>activeConnections\<close>: \<open>{connectedAt, role, transferId}\<close>.\<close>

record connection =
  connectedAt :: nat
  conn_role :: "role option"
  conn_transferId :: "string option"

datatype error_code = SESSION_NOT_FOUND | RECEIVER_EXISTS | UNAUTHORIZED | CHUNK_SAVE_ERROR

text \<open>
  The events the server emits. The constant \<open>message\<close> texts are left out; the payload
  fields are kept. \<open>Error_event\<close> carries the \<open>chunkIndex\<close> that only
  \<open>CHUNK_SAVE_ERROR\<close> has.
\<close>

datatype out_event =
    Transfer_created string
  | Error_event error_code "nat option"
  | Receiver_connected string socket_id
  | Joined_transfer string
  | Receive_chunk bytes nat nat string nat string
  | Chunk_uploaded nat nat
  | Transfer_complete string "file_info option"
  | Status_not_found
  | Status_response status "file_info option" nat nat
  | Peer_disconnected string "role option"

text \<open>
  \<open>socket.emit\<close> answers the calling socket; \<open>io.to(id).emit\<close> addresses the room named
  \<open>id\<close>. Every socket is in the room of its own id, which is how the server addresses the
  sender and the receiver of a session. \<open>socket.join(transferId)\<close> in the create and join
  handlers adds the socket to the room named by the transfer id; the server never reads room
  membership, and who is in a room is left to the transport.
\<close>

datatype target = To_socket socket_id | To_room string

type_synonym emits = "(target \<times> out_event) list"

text \<open>
  The \<open>upload-chunk\<close> handler is suspended at \<open>await fs.writeFile\<close>; other events are
  handled before it resumes. A \<open>pending_write\<close> is such a suspended handler: the values its
  closure holds (the socket, the fields of the event, the path) and the session object it
  looked up when the chunk arrived. \<open>pw_id\<close> numbers the suspended handlers.

  As long as that session object is the one registered under \<open>pw_tid\<close>, \<open>pw_detached\<close> is
  \<open>None\<close> and the registry entry is the object. When \<open>create-transfer\<close> overwrites the
  entry or cleanup deletes it, the object leaves the registry for good: \<open>pw_detached\<close> then
  holds the object as it was at that moment. From then on only suspended handlers reach it,
  and they only read its receiver and append to its chunks.
\<close>

record pending_write =
  pw_id :: nat
  pw_socket :: socket_id
  pw_tid :: string
  pw_detached :: "session option"
  pw_chunk :: bytes
  pw_index :: nat
  pw_total :: nat
  pw_fileName :: string
  pw_fileSize :: nat
  pw_fileType :: string
  pw_path :: string

text \<open>
  How \<open>fs.writeFile\<close> settles: it resolves with the chunk written, or it rejects; a write
  that rejects may have left the file untouched (\<open>None\<close>) or created or truncated it, so
  that it now holds some other content (\<open>Some b\<close>).
\<close>

datatype write_result = Written | Write_failed "bytes option"

text \<open>
  The process state: the two registries, the temporary chunk files (path to content), the
  pending cleanup timers in the order they were set (all with the same delay
  \<open>config.CLEANUP_INTERVAL\<close>, so they fire first in, first out), the activity log as
  \<open>(action, transferId, socketId)\<close> without the time of the entry, \<open>config.TEMP_DIR\<close>,
  fixed at start, the suspended \<open>upload-chunk\<close> handlers in the order they were suspended,
  and the number the next one gets.
\<close>

record state =
  transferSessions :: "string \<rightharpoonup> session"
  activeConnections :: "socket_id \<rightharpoonup> connection"
  files :: "string \<rightharpoonup> bytes"
  timers :: "string list"
  activityLog :: "(string \<times> string \<times> socket_id) list"
  TEMP_DIR :: string
  pending :: "pending_write list"
  next_id :: nat

text \<open>
  What the event loop handles, one at a time. A socket event carries the calling socket's id
  and the clock reading the handler takes. \<open>Upload_chunk c transferId chunk chunkIndex
  totalChunks fileName fileSize fileType t0\<close> is the arrival of a chunk: the handler runs up
  to the \<open>await\<close>. \<open>Write_done n result t1\<close> is the write of the suspended handler number
  \<open>n\<close> settling with \<open>result\<close> at clock \<open>t1\<close>: the handler runs to its end. Writes may
  settle in any order. \<open>Timeout ok\<close> is the oldest cleanup timer firing; \<open>ok\<close> says which
  \<open>fs.unlink\<close> calls of the cleanup loop (by position) are allowed to succeed.
\<close>

datatype event =
    Connection socket_id nat
  | Create_transfer socket_id string nat
  | Join_transfer socket_id string
  | Upload_chunk socket_id string bytes nat nat string nat string nat
  | Write_done nat write_result nat
  | Upload_complete socket_id string nat
  | Get_status socket_id string
  | Disconnect socket_id
  | Timeout "nat \<Rightarrow> bool"

text \<open>An uncaught exception of a handler (reading a property of \<open>undefined\<close>).\<close>

datatype exn = TypeError

section \<open>JavaScript and Node library behaviour the handlers rely on\<close>

text \<open>Truthiness of a value that is \<open>null\<close>/\<open>undefined\<close> or a string: the empty string is falsy.\<close>

definition truthy :: "string option \<Rightarrow> bool" where
  "truthy v = (case v of None \<Rightarrow> False | Some s \<Rightarrow> s \<noteq> [])"

text \<open>
  Decimal rendering of a number in a template literal, for the non-negative integers that
  chunk indices are (JavaScript prints integers below \<open>10^21\<close> in this form).
\<close>

definition digit :: "nat \<Rightarrow> char" where
  "digit n = ''0123456789'' ! (n mod 10)"

function show_nat :: "nat \<Rightarrow> string" where
  "show_nat n = (if n < 10 then [digit n] else show_nat (n div 10) @ [digit n])"
  by pat_completeness auto
termination
  by (relation "measure id") auto

declare show_nat.simps [simp del]

text \<open>
  \<open>path.join\<close> of Node's POSIX \<open>path\<close> module: the non-empty arguments are joined with
  \<open>/\<close> and the result is normalised: empty and \<open>.\<close> segments are dropped, a \<open>..\<close> segment
  removes the segment before it (or stays, on a relative path with nothing to remove), a
  trailing \<open>/\<close> is kept.
\<close>

fun split_sep :: "string \<Rightarrow> string list" where
  "split_sep [] = [[]]"
| "split_sep (c # cs) =
     (if c = CHR ''/'' then [] # split_sep cs
      else (case split_sep cs of [] \<Rightarrow> [[c]] | s # ss \<Rightarrow> (c # s) # ss))"

fun join_sep :: "string list \<Rightarrow> string" where
  "join_sep [] = []"
| "join_sep [s] = s"
| "join_sep (s # t # ss) = s @ ''/'' @ join_sep (t # ss)"

text \<open>\<open>normalizeSegs allowAboveRoot res segs\<close>: \<open>res\<close> is the result so far, last segment first.\<close>

fun normalizeSegs :: "bool \<Rightarrow> string list \<Rightarrow> string list \<Rightarrow> string list" where
  "normalizeSegs allowAbove res [] = rev res"
| "normalizeSegs allowAbove res (s # ss) =
     (if s = [] \<or> s = ''.'' then normalizeSegs allowAbove res ss
      else if s = ''..'' then
        (case res of
           [] \<Rightarrow> normalizeSegs allowAbove (if allowAbove then [''..''] else []) ss
         | r # rs \<Rightarrow>
             if r = ''..'' then normalizeSegs allowAbove (if allowAbove then ''..'' # res else res) ss
             else normalizeSegs allowAbove rs ss)
      else normalizeSegs allowAbove (s # res) ss)"

definition normalize :: "string \<Rightarrow> string" where
  "normalize p =
     (if p = [] then ''.''
      else
        let isAbsolute = (hd p = CHR ''/'');
            trailingSeparator = (last p = CHR ''/'');
            res = join_sep (normalizeSegs (\<not> isAbsolute) [] (split_sep p))
        in if res = [] then (if isAbsolute then ''/'' else if trailingSeparator then ''./'' else ''.'')
           else (if isAbsolute then ''/'' else []) @ res @ (if trailingSeparator then ''/'' else []))"

definition path_join :: "string list \<Rightarrow> string" where
  "path_join args =
     (let joined = filter (\<lambda>a. a \<noteq> []) args
      in if joined = [] then ''.'' else normalize (join_sep joined))"

section \<open>The handlers\<close>

text \<open>
  A step is what the event loop runs without interruption; it returns the new state with the
  events it emitted, in emission order. The synchronous handlers are one step each. The
  \<open>upload-chunk\<close> handler is two steps, \<open>upload_chunk\<close> up to \<open>await fs.writeFile\<close> and
  \<open>upload_chunk_resume\<close> after it, and any other steps may come between the two. The chunk
  file is taken to change when the write settles; that is what the file holds then as long as
  no other write to the same path and no cleanup overlaps with the write, and the content of
  a chunk file after its write is only stated under that condition. \<open>cleanupTransfer\<close>
  with its \<open>unlink\<close> loop is taken as one step. \<open>console.log\<close> output is not modelled.
\<close>

definition logActivity :: "string \<Rightarrow> string \<Rightarrow> socket_id \<Rightarrow> state \<Rightarrow> state" where
  "logActivity action tid c \<sigma> = \<sigma>\<lparr>activityLog := activityLog \<sigma> @ [(action, tid, c)]\<rparr>"

definition connection_handler :: "state \<Rightarrow> socket_id \<Rightarrow> nat \<Rightarrow> state" where
  "connection_handler \<sigma> c now =
     \<sigma>\<lparr>activeConnections := (activeConnections \<sigma>)
          (c \<mapsto> \<lparr>connectedAt = now, conn_role = None, conn_transferId = None\<rparr>)\<rparr>"

text \<open>
  \<open>activeConnections.get(socket.id).role = r; ....transferId = tid\<close>: a \<open>TypeError\<close> when the
  socket has no connection record.
\<close>

definition set_role :: "state \<Rightarrow> socket_id \<Rightarrow> role \<Rightarrow> string \<Rightarrow> exn + state" where
  "set_role \<sigma> c r tid =
     (case activeConnections \<sigma> c of
        None \<Rightarrow> Inl TypeError
      | Some conn \<Rightarrow>
          Inr (\<sigma>\<lparr>activeConnections := (activeConnections \<sigma>)
                 (c \<mapsto> conn\<lparr>conn_role := Some r, conn_transferId := Some tid\<rparr>)\<rparr>))"

text \<open>
  The suspended handlers after the session object registered under \<open>tid\<close> has left the
  registry: those that hold it keep it as it was.
\<close>

definition detach_pending :: "state \<Rightarrow> string \<Rightarrow> pending_write list" where
  "detach_pending \<sigma> tid =
     (case transferSessions \<sigma> tid of
        None \<Rightarrow> pending \<sigma>
      | Some session \<Rightarrow>
          map (\<lambda>pw. if pw_tid pw = tid \<and> pw_detached pw = None
                    then pw\<lparr>pw_detached := Some session\<rparr> else pw) (pending \<sigma>))"

definition create_transfer :: "state \<Rightarrow> socket_id \<Rightarrow> string \<Rightarrow> nat \<Rightarrow> exn + state \<times> emits" where
  "create_transfer \<sigma> c tid now =
     (let session = \<lparr>transferId = tid, sender = c, receiver = None, chunks = [],
                     fileInfo = None, startTime = now, status = Waiting, completedAt = None\<rparr>;
          \<sigma>1 = \<sigma>\<lparr>transferSessions := (transferSessions \<sigma>)(tid \<mapsto> session),
                 pending := detach_pending \<sigma> tid\<rparr>
      in case set_role \<sigma>1 c Sender tid of
           Inl e \<Rightarrow> Inl e
         | Inr \<sigma>2 \<Rightarrow> Inr (logActivity ''CREATE'' tid c \<sigma>2, [(To_socket c, Transfer_created tid)]))"

definition join_transfer :: "state \<Rightarrow> socket_id \<Rightarrow> string \<Rightarrow> exn + state \<times> emits" where
  "join_transfer \<sigma> c tid =
     (case transferSessions \<sigma> tid of
        None \<Rightarrow> Inr (\<sigma>, [(To_socket c, Error_event SESSION_NOT_FOUND None)])
      | Some session \<Rightarrow>
          if truthy (receiver session)
          then Inr (\<sigma>, [(To_socket c, Error_event RECEIVER_EXISTS None)])
          else
            let session' = session\<lparr>receiver := Some c, status := Connected\<rparr>;
                \<sigma>1 = \<sigma>\<lparr>transferSessions := (transferSessions \<sigma>)(tid \<mapsto> session')\<rparr>
            in case set_role \<sigma>1 c Receiver tid of
                 Inl e \<Rightarrow> Inl e
               | Inr \<sigma>2 \<Rightarrow>
                   Inr (logActivity ''JOIN'' tid c \<sigma>2,
                        [(To_room (sender session'), Receiver_connected tid c),
                         (To_socket c, Joined_transfer tid)]))"

definition chunkPath :: "string \<Rightarrow> string \<Rightarrow> nat \<Rightarrow> string" where
  "chunkPath dir tid chunkIndex = path_join [dir, tid @ ''_chunk_'' @ show_nat chunkIndex]"

text \<open>The arrival of a chunk: the handler up to \<open>await fs.writeFile(chunkPath, buffer)\<close>.\<close>

definition upload_chunk ::
  "state \<Rightarrow> socket_id \<Rightarrow> string \<Rightarrow> bytes \<Rightarrow> nat \<Rightarrow> nat \<Rightarrow> string \<Rightarrow> nat \<Rightarrow> string \<Rightarrow>
   nat \<Rightarrow> state \<times> emits" where
  "upload_chunk \<sigma> c tid chunk chunkIndex tot name fsize ftype t0 =
     (case transferSessions \<sigma> tid of
        None \<Rightarrow> (\<sigma>, [(To_socket c, Error_event SESSION_NOT_FOUND None)])
      | Some session \<Rightarrow>
          if sender session \<noteq> c
          then (\<sigma>, [(To_socket c, Error_event UNAUTHORIZED None)])
          else
            let session1 =
                  (if chunkIndex = 0
                   then session\<lparr>fileInfo := Some \<lparr>fileName = name, fileSize = fsize,
                                   fileType = ftype, totalChunks = tot, uploadStartTime = t0\<rparr>,
                                 status := Uploading\<rparr>
                   else session);
                pw = \<lparr>pw_id = next_id \<sigma>, pw_socket = c, pw_tid = tid, pw_detached = None,
                      pw_chunk = chunk, pw_index = chunkIndex, pw_total = tot,
                      pw_fileName = name, pw_fileSize = fsize, pw_fileType = ftype,
                      pw_path = chunkPath (TEMP_DIR \<sigma>) tid chunkIndex\<rparr>
            in (\<sigma>\<lparr>transferSessions := (transferSessions \<sigma>)(tid \<mapsto> session1),
                  pending := pending \<sigma> @ [pw], next_id := Suc (next_id \<sigma>)\<rparr>,
                []))"

text \<open>The suspended handler number \<open>n\<close>, if there is one.\<close>

definition suspended :: "state \<Rightarrow> nat \<Rightarrow> pending_write option" where
  "suspended \<sigma> n = find (\<lambda>pw. pw_id pw = n) (pending \<sigma>)"

text \<open>
  The session object a suspended handler holds, as it is now. In every state the server
  reaches it exists (lemma \<open>run_pending_registered\<close>).
\<close>

definition pw_object :: "state \<Rightarrow> pending_write \<Rightarrow> session option" where
  "pw_object \<sigma> pw =
     (case pw_detached pw of Some obj \<Rightarrow> Some obj | None \<Rightarrow> transferSessions \<sigma> (pw_tid pw))"

text \<open>
  The rest of the handler, when the write of the suspended handler number \<open>n\<close> settles:
  after a successful write the metadata entry is pushed onto the session object, the chunk is
  relayed if that object has a receiver now, and the sender gets the acknowledgment; after a
  failed write the \<open>catch\<close> block reports the error. With no suspended handler of that number
  nothing happens.
\<close>

definition upload_chunk_resume :: "state \<Rightarrow> nat \<Rightarrow> write_result \<Rightarrow> nat \<Rightarrow> state \<times> emits" where
  "upload_chunk_resume \<sigma> n result t1 =
     (case suspended \<sigma> n of
        None \<Rightarrow> (\<sigma>, [])
      | Some pw \<Rightarrow>
          let \<sigma>0 = \<sigma>\<lparr>pending := filter (\<lambda>q. pw_id q \<noteq> n) (pending \<sigma>)\<rparr>
          in case result of
               Write_failed left \<Rightarrow>
                 (\<sigma>0\<lparr>files := (case left of None \<Rightarrow> files \<sigma>
                                | Some b \<Rightarrow> (files \<sigma>)(pw_path pw \<mapsto> b))\<rparr>,
                  [(To_socket (pw_socket pw), Error_event CHUNK_SAVE_ERROR (Some (pw_index pw)))])
             | Written \<Rightarrow>
                 let \<sigma>1 = \<sigma>0\<lparr>files := (files \<sigma>)(pw_path pw \<mapsto> pw_chunk pw)\<rparr>;
                     ack = (To_socket (pw_socket pw), Chunk_uploaded (pw_index pw) (pw_total pw))
                 in case pw_object \<sigma> pw of
                      None \<Rightarrow> (\<sigma>1, [ack])
                    | Some session \<Rightarrow>
                        let session2 = session\<lparr>chunks := chunks session @
                              [\<lparr>index = pw_index pw, path = pw_path pw,
                                chunk_size = length (pw_chunk pw), timestamp = t1\<rparr>]\<rparr>
                        in ((if pw_detached pw = None
                             then \<sigma>1\<lparr>transferSessions :=
                                       (transferSessions \<sigma>)(pw_tid pw \<mapsto> session2)\<rparr>
                             else \<sigma>1),
                            (if truthy (receiver session2)
                             then [(To_room (the (receiver session2)),
                                    Receive_chunk (pw_chunk pw) (pw_index pw) (pw_total pw)
                                      (pw_fileName pw) (pw_fileSize pw) (pw_fileType pw))]
                             else []) @ [ack]))"

definition upload_complete :: "state \<Rightarrow> socket_id \<Rightarrow> string \<Rightarrow> nat \<Rightarrow> state \<times> emits" where
  "upload_complete \<sigma> c tid now =
     (case transferSessions \<sigma> tid of
        None \<Rightarrow> (\<sigma>, [(To_socket c, Error_event SESSION_NOT_FOUND None)])
      | Some session \<Rightarrow>
          let session' = session\<lparr>status := Completed, completedAt := Some now\<rparr>;
              \<sigma>1 = \<sigma>\<lparr>transferSessions := (transferSessions \<sigma>)(tid \<mapsto> session')\<rparr>;
              \<sigma>2 = logActivity ''COMPLETE'' tid c \<sigma>1
          in (\<sigma>2\<lparr>timers := timers \<sigma>2 @ [tid]\<rparr>,
              (if truthy (receiver session')
               then [(To_room (the (receiver session')), Transfer_complete tid (fileInfo session'))]
               else [])))"

definition get_status :: "state \<Rightarrow> socket_id \<Rightarrow> string \<Rightarrow> state \<times> emits" where
  "get_status \<sigma> c tid =
     (case transferSessions \<sigma> tid of
        None \<Rightarrow> (\<sigma>, [(To_socket c, Status_not_found)])
      | Some session \<Rightarrow>
          (\<sigma>, [(To_socket c,
                Status_response (status session) (fileInfo session) (length (chunks session))
                  (case fileInfo session of None \<Rightarrow> 0 | Some fi \<Rightarrow> totalChunks fi))]))"

definition disconnect :: "state \<Rightarrow> socket_id \<Rightarrow> state \<times> emits" where
  "disconnect \<sigma> c =
     (let (\<sigma>1, out) =
            (case activeConnections \<sigma> c of
               None \<Rightarrow> (\<sigma>, [])
             | Some conn \<Rightarrow>
                 if truthy (conn_transferId conn) then
                   (case transferSessions \<sigma> (the (conn_transferId conn)) of
                      None \<Rightarrow> (\<sigma>, [])
                    | Some session \<Rightarrow>
                        let otherParty = (if sender session = c then receiver session
                                          else Some (sender session))
                        in (logActivity ''DISCONNECT'' (the (conn_transferId conn)) c \<sigma>,
                            (if truthy otherParty
                             then [(To_room (the otherParty),
                                    Peer_disconnected (the (conn_transferId conn)) (conn_role conn))]
                             else [])))
                 else (\<sigma>, []))
      in (\<sigma>1\<lparr>activeConnections := (activeConnections \<sigma>1)(c := None)\<rparr>, out))"

text \<open>
  \<open>fs.unlink\<close> rejects when the file does not exist or when the environment makes it fail;
  the cleanup loop catches the rejection and goes on with the next chunk.
\<close>

definition unlink :: "(string \<rightharpoonup> bytes) \<Rightarrow> string \<Rightarrow> bool \<Rightarrow> (string \<rightharpoonup> bytes)" where
  "unlink fs p ok = (if ok \<and> fs p \<noteq> None then fs(p := None) else fs)"

fun unlink_chunks :: "(string \<rightharpoonup> bytes) \<Rightarrow> chunk_meta list \<Rightarrow> (nat \<Rightarrow> bool) \<Rightarrow> (string \<rightharpoonup> bytes)" where
  "unlink_chunks fs [] ok = fs"
| "unlink_chunks fs (m # ms) ok = unlink_chunks (unlink fs (path m) (ok 0)) ms (\<lambda>i. ok (Suc i))"

definition cleanupTransfer :: "state \<Rightarrow> string \<Rightarrow> (nat \<Rightarrow> bool) \<Rightarrow> state" where
  "cleanupTransfer \<sigma> tid ok =
     (case transferSessions \<sigma> tid of
        None \<Rightarrow> \<sigma>
      | Some session \<Rightarrow>
          \<sigma>\<lparr>files := unlink_chunks (files \<sigma>) (chunks session) ok,
            transferSessions := (transferSessions \<sigma>)(tid := None),
            pending := detach_pending \<sigma> tid\<rparr>)"

text \<open>The oldest pending cleanup timer fires; with no timer pending nothing happens.\<close>

definition timeout :: "state \<Rightarrow> (nat \<Rightarrow> bool) \<Rightarrow> state" where
  "timeout \<sigma> ok =
     (case timers \<sigma> of
        [] \<Rightarrow> \<sigma>
      | tid # rest \<Rightarrow> cleanupTransfer (\<sigma>\<lparr>timers := rest\<rparr>) tid ok)"

fun on_event :: "state \<Rightarrow> event \<Rightarrow> exn + state \<times> emits" where
  "on_event \<sigma> (Connection c now) = Inr (connection_handler \<sigma> c now, [])"
| "on_event \<sigma> (Create_transfer c tid now) = create_transfer \<sigma> c tid now"
| "on_event \<sigma> (Join_transfer c tid) = join_transfer \<sigma> c tid"
| "on_event \<sigma> (Upload_chunk c tid chunk i tot name fsize ftype t0) =
     Inr (upload_chunk \<sigma> c tid chunk i tot name fsize ftype t0)"
| "on_event \<sigma> (Write_done n result t1) = Inr (upload_chunk_resume \<sigma> n result t1)"
| "on_event \<sigma> (Upload_complete c tid now) = Inr (upload_complete \<sigma> c tid now)"
| "on_event \<sigma> (Get_status c tid) = Inr (get_status \<sigma> c tid)"
| "on_event \<sigma> (Disconnect c) = Inr (disconnect \<sigma> c)"
| "on_event \<sigma> (Timeout ok) = Inr (timeout \<sigma> ok, [])"

text \<open>A run handles the events in order and stops at the first uncaught exception.\<close>

fun run :: "state \<Rightarrow> event list \<Rightarrow> exn + state \<times> emits" where
  "run \<sigma> [] = Inr (\<sigma>, [])"
| "run \<sigma> (e # es) =
     (case on_event \<sigma> e of
        Inl x \<Rightarrow> Inl x
      | Inr (\<sigma>1, out1) \<Rightarrow>
          (case run \<sigma>1 es of
             Inl x \<Rightarrow> Inl x
           | Inr (\<sigma>2, out2) \<Rightarrow> Inr (\<sigma>2, out1 @ out2)))"

definition init :: "string \<Rightarrow> state" where
  "init dir = \<lparr>transferSessions = Map.empty, activeConnections = Map.empty, files = Map.empty,
               timers = [], activityLog = [], TEMP_DIR = dir, pending = [], next_id = 0\<rparr>"

section \<open>Notions used to state the properties\<close>

text \<open>An event that (re-)creates the session under \<open>tid\<close>: \<open>create-transfer\<close> overwrites the entry.\<close>

fun creates :: "string \<Rightarrow> event \<Rightarrow> bool" where
  "creates tid (Create_transfer c tid' now) = (tid' = tid)"
| "creates tid _ = False"

text \<open>An \<open>upload-chunk\<close> with \<open>chunkIndex\<close> 0 for \<open>tid\<close> from the socket \<open>sndr\<close>.\<close>

fun first_chunk_from :: "string \<Rightarrow> socket_id \<Rightarrow> event \<Rightarrow> bool" where
  "first_chunk_from tid sndr (Upload_chunk c tid' chunk i tot name fsize ftype t0) =
     (tid' = tid \<and> c = sndr \<and> i = 0)"
| "first_chunk_from tid sndr _ = False"

text \<open>
  \<open>written_for \<sigma> tid i e\<close> is 1 when the event \<open>e\<close>, handled in state \<open>\<sigma>\<close>, is the
  successful end of the write of a chunk with index \<open>i\<close> whose handler holds the session
  registered under \<open>tid\<close>, and 0 otherwise; \<open>written_count\<close> adds this up over a run.
\<close>

fun written_for :: "state \<Rightarrow> string \<Rightarrow> nat \<Rightarrow> event \<Rightarrow> nat" where
  "written_for \<sigma> tid i (Write_done n Written t1) =
     (case suspended \<sigma> n of
        None \<Rightarrow> 0
      | Some pw \<Rightarrow> if pw_tid pw = tid \<and> pw_detached pw = None \<and> pw_index pw = i then 1 else 0)"
| "written_for \<sigma> tid i _ = 0"

fun written_count :: "state \<Rightarrow> string \<Rightarrow> nat \<Rightarrow> event list \<Rightarrow> nat" where
  "written_count \<sigma> tid i [] = 0"
| "written_count \<sigma> tid i (e # es) =
     written_for \<sigma> tid i e +
     (case on_event \<sigma> e of Inl x \<Rightarrow> 0 | Inr (\<sigma>1, out) \<Rightarrow> written_count \<sigma>1 tid i es)"

text \<open>The event is the write of the suspended handler number \<open>n\<close> settling.\<close>

fun settles :: "nat \<Rightarrow> event \<Rightarrow> bool" where
  "settles n (Write_done m result t1) = (m = n)"
| "settles n _ = False"

text \<open>
  An event that may touch the chunk file \<open>p\<close> while a write to it is pending: an
  \<open>upload-chunk\<close> with the same storage key, or a cleanup.
\<close>

fun disturbs :: "string \<Rightarrow> string \<Rightarrow> event \<Rightarrow> bool" where
  "disturbs dir p (Upload_chunk c tid chunk i tot name fsize ftype t0) = (chunkPath dir tid i = p)"
| "disturbs dir p (Timeout ok) = True"
| "disturbs dir p _ = False"

text \<open>The session object that the suspended handler number \<open>n\<close> holds.\<close>

definition held_object :: "state \<Rightarrow> nat \<Rightarrow> session option" where
  "held_object \<sigma> n = (case suspended \<sigma> n of None \<Rightarrow> None | Some pw \<Rightarrow> pw_object \<sigma> pw)"

text \<open>Every suspended handler holds a session object.\<close>

definition pending_registered :: "state \<Rightarrow> bool" where
  "pending_registered \<sigma> = list_all (\<lambda>pw. pw_object \<sigma> pw \<noteq> None) (pending \<sigma>)"

text \<open>The \<open>receive-chunk\<close> event that relays the chunk of a suspended handler.\<close>

definition relay_of :: "pending_write \<Rightarrow> out_event" where
  "relay_of pw = Receive_chunk (pw_chunk pw) (pw_index pw) (pw_total pw)
                   (pw_fileName pw) (pw_fileSize pw) (pw_fileType pw)"

text \<open>The indices recorded in a session's chunk metadata, in list order.\<close>

definition chunk_indices :: "session \<Rightarrow> nat list" where
  "chunk_indices s = map index (chunks s)"

text \<open>The order \<open>waiting \<rightarrow> connected \<rightarrow> uploading \<rightarrow> completed\<close> of the status values.\<close>

fun status_rank :: "status \<Rightarrow> nat" where
  "status_rank Waiting = 0"
| "status_rank Connected = 1"
| "status_rank Uploading = 2"
| "status_rank Completed = 3"

text \<open>
  After the events \<open>es\<close> have been handled from state \<open>\<sigma>\<close>: the session under \<open>tid\<close>, the
  events emitted, and the content of the chunk file \<open>p\<close>.
\<close>

definition session_after :: "state \<Rightarrow> event list \<Rightarrow> string \<Rightarrow> session option" where
  "session_after \<sigma> es tid =
     (case run \<sigma> es of Inl x \<Rightarrow> None | Inr (\<sigma>', out) \<Rightarrow> transferSessions \<sigma>' tid)"

definition emitted :: "state \<Rightarrow> event list \<Rightarrow> emits" where
  "emitted \<sigma> es = (case run \<sigma> es of Inl x \<Rightarrow> [] | Inr (\<sigma>', out) \<Rightarrow> out)"

definition file_after :: "state \<Rightarrow> event list \<Rightarrow> string \<Rightarrow> bytes option" where
  "file_after \<sigma> es p = (case run \<sigma> es of Inl x \<Rightarrow> None | Inr (\<sigma>', out) \<Rightarrow> files \<sigma>' p)"

text \<open>
  What one event, handled in state \<open>\<sigma>\<close>, does to an existing session under \<open>tid\<close>, as long
  as cleanup does not remove it. It is used in proofs only; lemma \<open>on_event_session\<close> derives
  it from the handlers.
\<close>

fun session_step :: "state \<Rightarrow> string \<Rightarrow> session \<Rightarrow> event \<Rightarrow> session" where
  "session_step \<sigma> tid s (Join_transfer c tid') =
     (if tid' = tid \<and> \<not> truthy (receiver s) then s\<lparr>receiver := Some c, status := Connected\<rparr> else s)"
| "session_step \<sigma> tid s (Upload_chunk c tid' chunk i tot name fsize ftype t0) =
     (if tid' = tid \<and> c = sender s \<and> i = 0
      then s\<lparr>fileInfo := Some \<lparr>fileName = name, fileSize = fsize, fileType = ftype,
                                 totalChunks = tot, uploadStartTime = t0\<rparr>, status := Uploading\<rparr>
      else s)"
| "session_step \<sigma> tid s (Write_done n Written t1) =
     (case suspended \<sigma> n of
        None \<Rightarrow> s
      | Some pw \<Rightarrow>
          if pw_tid pw = tid \<and> pw_detached pw = None
          then s\<lparr>chunks := chunks s @ [\<lparr>index = pw_index pw, path = pw_path pw,
                                chunk_size = length (pw_chunk pw), timestamp = t1\<rparr>]\<rparr>
          else s)"
| "session_step \<sigma> tid s (Upload_complete c tid' now) =
     (if tid' = tid then s\<lparr>status := Completed, completedAt := Some now\<rparr> else s)"
| "session_step \<sigma> tid s _ = s"

text \<open>The value of a decimal digit, to read \<open>show_nat\<close> back.\<close>

definition digit_val :: "char \<Rightarrow> nat" where
  "digit_val c = of_char c - 48"

section \<open>Concrete states and event sequences\<close>

text \<open>
  \<open>waiting_state\<close>: sockets \<open>s1\<close> and \<open>r1\<close> are connected and \<open>s1\<close> has created \<open>t1\<close>.
  \<open>example_state\<close>: \<open>r1\<close> has joined as well. Both are reached from the initial state
  (lemmas \<open>waiting_reachable\<close>, \<open>example_reachable\<close>). \<open>stored_state\<close>: three chunks of
  \<open>t1\<close> have been stored, and a file of another transfer exists. No write is pending in
  them.
\<close>

definition waiting_session :: session where
  "waiting_session = \<lparr>transferId = ''t1'', sender = ''s1'', receiver = None, chunks = [],
     fileInfo = None, startTime = 1, status = Waiting, completedAt = None\<rparr>"

definition waiting_state :: state where
  "waiting_state = \<lparr>transferSessions = [''t1'' \<mapsto> waiting_session],
     activeConnections =
       [''s1'' \<mapsto> \<lparr>connectedAt = 0, conn_role = Some Sender, conn_transferId = Some ''t1''\<rparr>,
        ''r1'' \<mapsto> \<lparr>connectedAt = 0, conn_role = None, conn_transferId = None\<rparr>],
     files = Map.empty, timers = [],
     activityLog = [(''CREATE'', ''t1'', ''s1'')],
     TEMP_DIR = ''./temp'', pending = [], next_id = 0\<rparr>"

definition example_session :: session where
  "example_session = \<lparr>transferId = ''t1'', sender = ''s1'', receiver = Some ''r1'', chunks = [],
     fileInfo = None, startTime = 1, status = Connected, completedAt = None\<rparr>"

definition example_state :: state where
  "example_state = \<lparr>transferSessions = [''t1'' \<mapsto> example_session],
     activeConnections =
       [''s1'' \<mapsto> \<lparr>connectedAt = 0, conn_role = Some Sender, conn_transferId = Some ''t1''\<rparr>,
        ''r1'' \<mapsto> \<lparr>connectedAt = 0, conn_role = Some Receiver, conn_transferId = Some ''t1''\<rparr>],
     files = Map.empty, timers = [],
     activityLog = [(''CREATE'', ''t1'', ''s1''), (''JOIN'', ''t1'', ''r1'')],
     TEMP_DIR = ''./temp'', pending = [], next_id = 0\<rparr>"

definition stored_session :: session where
  "stored_session = example_session\<lparr>
     chunks := [\<lparr>index = 0, path = ''temp/t1_chunk_0'', chunk_size = 2, timestamp = 4\<rparr>,
                \<lparr>index = 1, path = ''temp/t1_chunk_1'', chunk_size = 2, timestamp = 6\<rparr>,
                \<lparr>index = 2, path = ''temp/t1_chunk_2'', chunk_size = 2, timestamp = 8\<rparr>],
     fileInfo := Some \<lparr>fileName = ''a.txt'', fileSize = 6, fileType = ''text/plain'',
                         totalChunks = 3, uploadStartTime = 3\<rparr>,
     status := Uploading\<rparr>"

definition stored_state :: state where
  "stored_state = example_state\<lparr>transferSessions := [''t1'' \<mapsto> stored_session],
     files := [''temp/t1_chunk_0'' \<mapsto> ''AB'', ''temp/t1_chunk_1'' \<mapsto> ''CD'',
               ''temp/t1_chunk_2'' \<mapsto> ''EF'', ''temp/zz_chunk_0'' \<mapsto> ''ZZ'']\<rparr>"

text \<open>
  \<open>arrived_state\<close>: chunk 0 has arrived in \<open>waiting_state\<close> and its write, number 0, is
  pending (\<open>first_write\<close>); no receiver is bound. \<open>joined_state\<close>: the receiver has joined
  while that write is pending. \<open>uploading_unpaired_state\<close>: the write has succeeded with
  no receiver bound.
\<close>

definition first_write :: pending_write where
  "first_write = \<lparr>pw_id = 0, pw_socket = ''s1'', pw_tid = ''t1'', pw_detached = None,
     pw_chunk = ''AB'', pw_index = 0, pw_total = 2, pw_fileName = ''a.txt'', pw_fileSize = 4,
     pw_fileType = ''text/plain'', pw_path = ''temp/t1_chunk_0''\<rparr>"

definition arrived_session :: session where
  "arrived_session = waiting_session\<lparr>
     fileInfo := Some \<lparr>fileName = ''a.txt'', fileSize = 4, fileType = ''text/plain'',
                         totalChunks = 2, uploadStartTime = 3\<rparr>,
     status := Uploading\<rparr>"

definition arrived_state :: state where
  "arrived_state = waiting_state\<lparr>transferSessions := [''t1'' \<mapsto> arrived_session],
     pending := [first_write], next_id := 1\<rparr>"

definition joined_session :: session where
  "joined_session = arrived_session\<lparr>receiver := Some ''r1'', status := Connected\<rparr>"

definition joined_state :: state where
  "joined_state = arrived_state\<lparr>transferSessions := [''t1'' \<mapsto> joined_session],
     activeConnections :=
       [''s1'' \<mapsto> \<lparr>connectedAt = 0, conn_role = Some Sender, conn_transferId = Some ''t1''\<rparr>,
        ''r1'' \<mapsto> \<lparr>connectedAt = 0, conn_role = Some Receiver, conn_transferId = Some ''t1''\<rparr>],
     activityLog := [(''CREATE'', ''t1'', ''s1''), (''JOIN'', ''t1'', ''r1'')]\<rparr>"

definition uploading_unpaired_session :: session where
  "uploading_unpaired_session = arrived_session\<lparr>
     chunks := [\<lparr>index = 0, path = ''temp/t1_chunk_0'', chunk_size = 2, timestamp = 4\<rparr>]\<rparr>"

definition uploading_unpaired_state :: state where
  "uploading_unpaired_state = arrived_state\<lparr>
     transferSessions := [''t1'' \<mapsto> uploading_unpaired_session],
     files := [''temp/t1_chunk_0'' \<mapsto> ''AB''], pending := []\<rparr>"

text \<open>Joins by other sockets, a first chunk, a completion by a third socket, a disconnect.\<close>

definition example_events :: "event list" where
  "example_events = [Join_transfer ''x9'' ''t1'',
     Upload_chunk ''s1'' ''t1'' ''AB'' 0 1 ''a.txt'' 2 ''text/plain'' 3,
     Connection ''x9'' 5, Join_transfer ''x9'' ''t1'', Write_done 0 Written 4,
     Upload_complete ''x9'' ''t1'' 6,
     Join_transfer ''s1'' ''t1'', Disconnect ''r1'', Join_transfer ''x9'' ''t1'']"

text \<open>The receiver joins after the first chunk; the second chunk, completion and cleanup follow.\<close>

definition later_events :: "event list" where
  "later_events = [Join_transfer ''r1'' ''t1'', Get_status ''r1'' ''t1'',
     Upload_chunk ''s1'' ''t1'' ''CD'' 1 2 ''a.txt'' 4 ''text/plain'' 5,
     Write_done 1 Written 6,
     Upload_complete ''s1'' ''t1'' 7, Disconnect ''s1'', Timeout (\<lambda>i. True)]"

text \<open>A run with no chunk of index 0.\<close>

definition forward_events :: "event list" where
  "forward_events = [Join_transfer ''x9'' ''t1'',
     Upload_chunk ''s1'' ''t1'' ''CD'' 1 2 ''a.txt'' 4 ''text/plain'' 5,
     Get_status ''r1'' ''t1'', Write_done 0 Written 6,
     Upload_complete ''s1'' ''t1'' 7, Disconnect ''s1'']"

text \<open>
  Chunk 1 is sent twice and both writes succeed, the second before the first; in between
  come an upload by the receiver, a write that fails and a rejected join.
\<close>

definition retransmit_events :: "event list" where
  "retransmit_events = [
     Upload_chunk ''s1'' ''t1'' ''CD'' 1 3 ''a.txt'' 6 ''text/plain'' 9,
     Upload_chunk ''r1'' ''t1'' ''QQ'' 5 3 ''a.txt'' 6 ''text/plain'' 11,
     Upload_chunk ''s1'' ''t1'' ''GH'' 3 3 ''a.txt'' 6 ''text/plain'' 13,
     Write_done 1 (Write_failed (Some [])) 14,
     Join_transfer ''x9'' ''t1'',
     Upload_chunk ''s1'' ''t1'' ''CD'' 1 3 ''a.txt'' 6 ''text/plain'' 15,
     Write_done 2 Written 16,
     Write_done 0 Written 17]"

text \<open>Two senders create the transfers \<open>t1\<close> and \<open>./t1\<close> and each uploads its chunk 0.\<close>

definition collision_events :: "event list" where
  "collision_events = [Connection ''s1'' 0, Connection ''s2'' 0,
     Create_transfer ''s1'' ''t1'' 1, Create_transfer ''s2'' ''./t1'' 2,
     Upload_chunk ''s1'' ''t1'' ''AAAA'' 0 1 ''a.txt'' 4 ''text/plain'' 3,
     Write_done 0 Written 4,
     Upload_chunk ''s2'' ''./t1'' ''BB'' 0 1 ''b.txt'' 2 ''text/plain'' 5,
     Write_done 1 Written 6]"

section \<open>How one event and a run of events change a session\<close>

lemmas handler_defs = connection_handler_def create_transfer_def join_transfer_def set_role_def
  upload_chunk_def upload_chunk_resume_def pw_object_def detach_pending_def
  upload_complete_def get_status_def disconnect_def timeout_def cleanupTransfer_def
  logActivity_def truthy_def Let_def

lemma cleanupTransfer_sessions:
  "transferSessions (cleanupTransfer \<sigma> tid' ok) = (transferSessions \<sigma>)(tid' := None)"
  by (auto simp: cleanupTransfer_def split: option.splits)

lemma timeout_sessions:
  "transferSessions (timeout \<sigma> ok) tid = None \<or> transferSessions (timeout \<sigma> ok) tid = transferSessions \<sigma> tid"
  by (auto simp: timeout_def cleanupTransfer_sessions split: list.splits)

lemma disconnect_sessions: "transferSessions (fst (disconnect \<sigma> c)) = transferSessions \<sigma>"
  by (auto simp: disconnect_def logActivity_def Let_def split: option.splits prod.splits if_splits)

lemma disconnect_pending: "pending (fst (disconnect \<sigma> c)) = pending \<sigma>"
  by (auto simp: disconnect_def logActivity_def Let_def split: option.splits prod.splits if_splits)

text \<open>What the second step of the upload handler does to the registry.\<close>

lemma resume_sessions:
  "transferSessions (fst (upload_chunk_resume \<sigma> n result t1)) tid =
     (case transferSessions \<sigma> tid of
        None \<Rightarrow> None
      | Some s \<Rightarrow> Some (session_step \<sigma> tid s (Write_done n result t1)))"
  by (cases result)
     (auto simp: upload_chunk_resume_def pw_object_def Let_def split: option.splits)

lemma on_event_absent:
  assumes "on_event \<sigma> e = Inr (\<sigma>1, out)" and "transferSessions \<sigma> tid = None" and "\<not> creates tid e"
  shows "transferSessions \<sigma>1 tid = None"
proof (cases e)
  case (Timeout ok)
  with assms timeout_sessions[of \<sigma> ok tid] show ?thesis by auto
next
  case (Disconnect c)
  with assms disconnect_sessions[of \<sigma> c] show ?thesis by auto
next
  case (Write_done n result t1)
  with assms resume_sessions[of \<sigma> n result t1 tid] show ?thesis by auto
qed (use assms in \<open>auto simp: connection_handler_def create_transfer_def join_transfer_def set_role_def
      upload_chunk_def upload_complete_def get_status_def logActivity_def Let_def
      split: option.splits sum.splits if_splits\<close>)

lemma on_event_session:
  assumes "on_event \<sigma> e = Inr (\<sigma>1, out)" and "transferSessions \<sigma> tid = Some s" and "\<not> creates tid e"
  shows "transferSessions \<sigma>1 tid = None
    \<or> transferSessions \<sigma>1 tid = Some (session_step \<sigma> tid s e)"
proof (cases e)
  case (Timeout ok)
  with assms timeout_sessions[of \<sigma> ok tid] show ?thesis by auto
next
  case (Disconnect c)
  with assms disconnect_sessions[of \<sigma> c] show ?thesis by auto
next
  case (Write_done n result t1)
  with assms resume_sessions[of \<sigma> n result t1 tid] show ?thesis by auto
next
  case (Upload_chunk c tid' chunk i tot name fsize ftype t0)
  with assms show ?thesis
    by (auto simp: upload_chunk_def Let_def split: option.splits if_splits)
qed (use assms in \<open>auto simp: connection_handler_def create_transfer_def join_transfer_def set_role_def
      upload_complete_def get_status_def logActivity_def Let_def
      split: option.splits sum.splits if_splits\<close>)

text \<open>A handler only throws when a socket without connection record creates or joins.\<close>

lemma on_event_Inl:
  assumes "on_event \<sigma> e = Inl x"
  shows "(\<exists>c tid now. e = Create_transfer c tid now \<and> activeConnections \<sigma> c = None) \<or>
         (\<exists>c tid. e = Join_transfer c tid \<and> activeConnections \<sigma> c = None)"
  using assms
  by (cases e)
     (auto simp: create_transfer_def join_transfer_def set_role_def Let_def
           split: option.splits if_splits)

lemma run_Cons_Inr:
  assumes "run \<sigma> (e # es) = Inr (\<sigma>', out)"
  obtains \<sigma>1 out1 out2 where "on_event \<sigma> e = Inr (\<sigma>1, out1)" and "run \<sigma>1 es = Inr (\<sigma>', out2)"
    and "out = out1 @ out2"
  using assms by (auto split: sum.splits prod.splits)

text \<open>A property of the session under one transfer id that every step keeps is kept by a run.\<close>

lemma run_session_invariant:
  assumes step: "\<And>\<sigma> s e. \<not> bad e \<Longrightarrow> P s \<Longrightarrow> P (session_step \<sigma> tid s e)"
    and bad: "\<And>e. creates tid e \<Longrightarrow> bad e"
    and run: "run \<sigma> es = Inr (\<sigma>', out)"
    and es: "\<forall>e\<in>set es. \<not> bad e"
    and s: "transferSessions \<sigma> tid = Some s" "P s"
    and s': "transferSessions \<sigma>' tid = Some s'"
  shows "P s'"
proof -
  have "transferSessions \<sigma>' tid = None \<or> (\<exists>s'. transferSessions \<sigma>' tid = Some s' \<and> P s')"
    if "transferSessions \<sigma> tid = None \<or> (\<exists>s. transferSessions \<sigma> tid = Some s \<and> P s)"
    using run es that
  proof (induction es arbitrary: \<sigma> out)
    case Nil
    then show ?case by auto
  next
    case (Cons e es)
    from Cons.prems(1) obtain \<sigma>1 out1 out2 where e: "on_event \<sigma> e = Inr (\<sigma>1, out1)"
      and r: "run \<sigma>1 es = Inr (\<sigma>', out2)" by (rule run_Cons_Inr)
    from Cons.prems(2) have nb: "\<not> bad e" and nc: "\<not> creates tid e" using bad by auto
    have "transferSessions \<sigma>1 tid = None \<or> (\<exists>s. transferSessions \<sigma>1 tid = Some s \<and> P s)"
      using Cons.prems(3) on_event_absent[OF e _ nc] on_event_session[OF e _ nc] step[OF nb]
      by metis
    with Cons.IH[OF r] Cons.prems(2) show ?case by simp
  qed
  with s s' show ?thesis by auto
qed

lemma run_absent:
  assumes "run \<sigma> es = Inr (\<sigma>', out)" and "\<forall>e\<in>set es. \<not> creates tid e"
    and "transferSessions \<sigma> tid = None"
  shows "transferSessions \<sigma>' tid = None"
  using assms
proof (induction es arbitrary: \<sigma> out)
  case Nil
  then show ?case by simp
next
  case (Cons e es)
  from Cons.prems(1) obtain \<sigma>1 out1 out2 where e: "on_event \<sigma> e = Inr (\<sigma>1, out1)"
    and r: "run \<sigma>1 es = Inr (\<sigma>', out2)" by (rule run_Cons_Inr)
  from Cons.prems(2) have nc: "\<not> creates tid e" by simp
  from on_event_absent[OF e Cons.prems(3) nc] Cons.IH[OF r] Cons.prems(2) show ?case by simp
qed

lemma session_step_sender: "sender (session_step \<sigma> tid s e) = sender s"
  by (induction \<sigma> tid s e rule: session_step.induct) (auto split: option.splits)

lemma session_step_receiver:
  "truthy (receiver s) \<Longrightarrow> receiver (session_step \<sigma> tid s e) = receiver s"
  by (induction \<sigma> tid s e rule: session_step.induct) (auto split: option.splits)

lemma session_step_not_waiting:
  "status s \<noteq> Waiting \<Longrightarrow> status (session_step \<sigma> tid s e) \<noteq> Waiting"
  by (induction \<sigma> tid s e rule: session_step.induct) (auto split: option.splits)

lemma session_step_paired:
  "truthy (receiver s) \<and> status s \<in> {Uploading, Completed} \<Longrightarrow>
   truthy (receiver (session_step \<sigma> tid s e)) \<and>
   status (session_step \<sigma> tid s e) \<in> {Uploading, Completed}"
  by (induction \<sigma> tid s e rule: session_step.induct) (auto split: option.splits)

lemma session_step_rank:
  "\<not> first_chunk_from tid (sender s) e \<Longrightarrow> truthy (receiver s) \<Longrightarrow>
   truthy (receiver (session_step \<sigma> tid s e)) \<and>
   status_rank (status s) \<le> status_rank (status (session_step \<sigma> tid s e))"
  by (cases "(\<sigma>, tid, s, e)" rule: session_step.cases; cases "status s")
     (auto split: option.splits)

lemma session_step_status:
  "status_rank (status s) \<le> status_rank (status (session_step \<sigma> tid s e)) \<or>
   (\<exists>c. e = Join_transfer c tid \<and> \<not> truthy (receiver s) \<and>
        status (session_step \<sigma> tid s e) = Connected) \<or>
   (first_chunk_from tid (sender s) e \<and> status (session_step \<sigma> tid s e) = Uploading)"
  by (cases "(\<sigma>, tid, s, e)" rule: session_step.cases; cases "status s")
     (auto split: option.splits)

lemma session_step_fileInfo:
  "\<not> first_chunk_from tid (sender s) e \<Longrightarrow> fileInfo (session_step \<sigma> tid s e) = fileInfo s"
  by (induction \<sigma> tid s e rule: session_step.induct) (auto split: option.splits)

lemma session_afterD:
  assumes "session_after \<sigma> es tid = Some s'"
  obtains \<sigma>' out where "run \<sigma> es = Inr (\<sigma>', out)" and "transferSessions \<sigma>' tid = Some s'"
  using assms by (auto simp: session_after_def split: sum.splits)

lemma emittedD:
  assumes "x \<in> set (emitted \<sigma> es)"
  obtains \<sigma>' out where "run \<sigma> es = Inr (\<sigma>', out)" and "x \<in> set out"
proof (cases "run \<sigma> es")
  case (Inl a)
  with assms show ?thesis by (simp add: emitted_def)
next
  case (Inr r)
  obtain \<sigma>' out where "r = (\<sigma>', out)" by (cases r)
  with assms Inr that[of \<sigma>' out] show ?thesis by (simp add: emitted_def)
qed

section \<open>Suspended handlers\<close>

lemma suspended_mem: "suspended \<sigma> n = Some pw \<Longrightarrow> pw \<in> set (pending \<sigma>) \<and> pw_id pw = n"
  by (auto simp: suspended_def find_Some_iff)

lemma find_id_map:
  assumes "\<And>q. pw_id (f q) = pw_id q"
  shows "find (\<lambda>q. pw_id q = n) (map f ps) = map_option f (find (\<lambda>q. pw_id q = n) ps)"
  using assms by (induction ps) auto

lemma find_id_filter:
  "find (\<lambda>q. pw_id q = n) (filter (\<lambda>q. pw_id q \<noteq> m) ps) =
     (if m = n then None else find (\<lambda>q. pw_id q = n) ps)"
  by (induction ps) auto

lemma find_id_append:
  "find (\<lambda>q. pw_id q = n) (ps @ [q]) =
     (case find (\<lambda>q. pw_id q = n) ps of Some p \<Rightarrow> Some p
      | None \<Rightarrow> if pw_id q = n then Some q else None)"
  by (induction ps) auto

text \<open>Detaching keeps the number and the closure values of every suspended handler.\<close>

lemma find_id_detach:
  "find (\<lambda>q. pw_id q = n) (detach_pending \<sigma> tid) =
     (case transferSessions \<sigma> tid of
        None \<Rightarrow> suspended \<sigma> n
      | Some s \<Rightarrow> map_option (\<lambda>pw. if pw_tid pw = tid \<and> pw_detached pw = None
                                      then pw\<lparr>pw_detached := Some s\<rparr> else pw) (suspended \<sigma> n))"
  by (auto simp: detach_pending_def suspended_def find_id_map split: option.splits)

lemma relay_of_detach [simp]: "relay_of (pw\<lparr>pw_detached := d\<rparr>) = relay_of pw"
  by (simp add: relay_of_def)

lemma map_relay_detach:
  "map relay_of (map (\<lambda>pw. if P pw then pw\<lparr>pw_detached := d\<rparr> else pw) ps) = map relay_of ps"
  by (induction ps) auto

lemma detach_relays: "relay_of ` set (detach_pending \<sigma> tid) = relay_of ` set (pending \<sigma>)"
proof -
  have "map relay_of (detach_pending \<sigma> tid) = map relay_of (pending \<sigma>)"
    by (simp add: detach_pending_def map_relay_detach split: option.splits)
  then have "set (map relay_of (detach_pending \<sigma> tid)) = set (map relay_of (pending \<sigma>))"
    by simp
  then show ?thesis by simp
qed

lemma pw_object_same:
  "transferSessions \<sigma>1 = transferSessions \<sigma> \<Longrightarrow> pw_object \<sigma>1 pw = pw_object \<sigma> pw"
  by (simp add: pw_object_def split: option.splits)

text \<open>Every state the server reaches has a session object for every suspended handler.\<close>

lemma detach_pending_mem:
  assumes "pw \<in> set (detach_pending \<sigma> tid)"
  shows "\<exists>q\<in>set (pending \<sigma>). pw_tid pw = pw_tid q \<and> pw_id pw = pw_id q \<and>
           (pw_detached pw = None \<longrightarrow>
              pw_detached q = None \<and> (pw_tid q = tid \<longrightarrow> transferSessions \<sigma> tid = None))"
proof (cases "transferSessions \<sigma> tid")
  case None
  with assms show ?thesis by (auto simp: detach_pending_def)
next
  case (Some s)
  with assms obtain q where q: "q \<in> set (pending \<sigma>)"
    and pw: "pw = (if pw_tid q = tid \<and> pw_detached q = None then q\<lparr>pw_detached := Some s\<rparr> else q)"
    by (auto simp: detach_pending_def)
  show ?thesis
  proof (cases "pw_tid q = tid \<and> pw_detached q = None")
    case True
    with pw q show ?thesis by (intro bexI[of _ q]) simp_all
  next
    case False
    with pw q show ?thesis by (intro bexI[of _ q]) auto
  qed
qed

lemma cleanupTransfer_pending: "pending (cleanupTransfer \<sigma> tid ok) = detach_pending \<sigma> tid"
  by (simp add: cleanupTransfer_def detach_pending_def split: option.splits)

lemma detach_pending_timers [simp]: "detach_pending (\<sigma>\<lparr>timers := ts\<rparr>) tid = detach_pending \<sigma> tid"
  by (simp add: detach_pending_def split: option.splits)

lemma timeout_cases:
  "(timers \<sigma> = [] \<and> timeout \<sigma> ok = \<sigma>) \<or>
   (\<exists>tid rest. timers \<sigma> = tid # rest \<and> pending (timeout \<sigma> ok) = detach_pending \<sigma> tid \<and>
      transferSessions (timeout \<sigma> ok) = (transferSessions \<sigma>)(tid := None))"
  by (cases "timers \<sigma>") (simp_all add: timeout_def cleanupTransfer_pending cleanupTransfer_sessions)

lemma create_transfer_Inr:
  assumes "create_transfer \<sigma> c tid now = Inr (\<sigma>1, out)"
  shows "pending \<sigma>1 = detach_pending \<sigma> tid \<and>
    transferSessions \<sigma>1 = (transferSessions \<sigma>)(tid \<mapsto>
      \<lparr>transferId = tid, sender = c, receiver = None, chunks = [], fileInfo = None,
        startTime = now, status = Waiting, completedAt = None\<rparr>) \<and>
    out = [(To_socket c, Transfer_created tid)]"
  using assms
  by (auto simp: create_transfer_def set_role_def logActivity_def Let_def
      split: option.splits sum.splits)

lemma join_transfer_Inr:
  assumes "join_transfer \<sigma> c tid = Inr (\<sigma>1, out)"
  shows "pending \<sigma>1 = pending \<sigma> \<and>
    (transferSessions \<sigma>1 = transferSessions \<sigma> \<or>
     (\<exists>s. transferSessions \<sigma> tid = Some s \<and> \<not> truthy (receiver s) \<and>
        transferSessions \<sigma>1 = (transferSessions \<sigma>)(tid \<mapsto> s\<lparr>receiver := Some c, status := Connected\<rparr>)))"
  using assms
  by (auto simp: join_transfer_def set_role_def logActivity_def Let_def
      split: option.splits sum.splits if_splits)

lemma upload_chunk_cases:
  "upload_chunk \<sigma> c tid chunk i tot name fsize ftype t0 = (\<sigma>, [(To_socket c, Error_event SESSION_NOT_FOUND None)]) \<or>
   upload_chunk \<sigma> c tid chunk i tot name fsize ftype t0 = (\<sigma>, [(To_socket c, Error_event UNAUTHORIZED None)]) \<or>
   (\<exists>s s1. transferSessions \<sigma> tid = Some s \<and> sender s = c \<and> receiver s1 = receiver s \<and>
      upload_chunk \<sigma> c tid chunk i tot name fsize ftype t0 =
        (\<sigma>\<lparr>transferSessions := (transferSessions \<sigma>)(tid \<mapsto> s1),
           pending := pending \<sigma> @ [\<lparr>pw_id = next_id \<sigma>, pw_socket = c, pw_tid = tid,
              pw_detached = None, pw_chunk = chunk, pw_index = i, pw_total = tot,
              pw_fileName = name, pw_fileSize = fsize, pw_fileType = ftype,
              pw_path = chunkPath (TEMP_DIR \<sigma>) tid i\<rparr>],
           next_id := Suc (next_id \<sigma>)\<rparr>, []))"
proof (cases "transferSessions \<sigma> tid")
  case None
  then show ?thesis by (simp add: upload_chunk_def)
next
  case (Some s)
  show ?thesis
  proof (cases "sender s = c")
    case False
    with Some show ?thesis by (simp add: upload_chunk_def)
  next
    case True
    define s1 where "s1 = (if i = 0
       then s\<lparr>fileInfo := Some \<lparr>fileName = name, fileSize = fsize,
                 fileType = ftype, totalChunks = tot, uploadStartTime = t0\<rparr>,
              status := Uploading\<rparr> else s)"
    have "receiver s1 = receiver s" by (simp add: s1_def)
    moreover have "upload_chunk \<sigma> c tid chunk i tot name fsize ftype t0 =
        (\<sigma>\<lparr>transferSessions := (transferSessions \<sigma>)(tid \<mapsto> s1),
           pending := pending \<sigma> @ [\<lparr>pw_id = next_id \<sigma>, pw_socket = c, pw_tid = tid,
              pw_detached = None, pw_chunk = chunk, pw_index = i, pw_total = tot,
              pw_fileName = name, pw_fileSize = fsize, pw_fileType = ftype,
              pw_path = chunkPath (TEMP_DIR \<sigma>) tid i\<rparr>],
           next_id := Suc (next_id \<sigma>)\<rparr>, [])"
      using Some True by (simp add: upload_chunk_def s1_def Let_def)
    ultimately show ?thesis using Some True by blast
  qed
qed

lemma upload_complete_pending:
  "pending (fst (upload_complete \<sigma> c tid now)) = pending \<sigma> \<and>
   (transferSessions (fst (upload_complete \<sigma> c tid now)) = transferSessions \<sigma> \<or>
    (\<exists>s. transferSessions \<sigma> tid = Some s \<and>
       transferSessions (fst (upload_complete \<sigma> c tid now)) =
         (transferSessions \<sigma>)(tid \<mapsto> s\<lparr>status := Completed, completedAt := Some now\<rparr>)))"
  by (auto simp: upload_complete_def logActivity_def Let_def split: option.splits)

lemma resume_pending_subset:
  "set (pending (fst (upload_chunk_resume \<sigma> n result t1))) \<subseteq> set (pending \<sigma>)"
  by (cases result)
     (auto simp: upload_chunk_resume_def Let_def split: option.splits if_splits)

lemma on_event_pending_registered:
  assumes "on_event \<sigma> e = Inr (\<sigma>1, out)" and "pending_registered \<sigma>"
  shows "pending_registered \<sigma>1"
proof -
  from assms(2) have reg: "\<And>pw. pw \<in> set (pending \<sigma>) \<Longrightarrow>
      pw_detached pw = None \<Longrightarrow> transferSessions \<sigma> (pw_tid pw) \<noteq> None"
    by (auto simp: pending_registered_def list_all_iff pw_object_def)
  have "transferSessions \<sigma>1 (pw_tid pw) \<noteq> None"
    if m: "pw \<in> set (pending \<sigma>1)" and d: "pw_detached pw = None" for pw
  proof (cases e)
    case (Timeout ok)
    with assms(1) have s1: "\<sigma>1 = timeout \<sigma> ok" by simp
    from timeout_cases[of \<sigma> ok] show ?thesis
    proof (elim disjE conjE exE)
      assume "timeout \<sigma> ok = \<sigma>"
      with s1 m d reg[of pw] show ?thesis by simp
    next
      fix tid rest
      assume p: "pending (timeout \<sigma> ok) = detach_pending \<sigma> tid"
        and t: "transferSessions (timeout \<sigma> ok) = (transferSessions \<sigma>)(tid := None)"
      from m s1 p detach_pending_mem[of pw \<sigma> tid] d obtain q where
        q: "q \<in> set (pending \<sigma>)" "pw_tid pw = pw_tid q" "pw_detached q = None"
           "pw_tid q = tid \<longrightarrow> transferSessions \<sigma> tid = None" by auto
      from reg[OF q(1) q(3)] q(4) have "pw_tid q \<noteq> tid" by auto
      with reg[OF q(1) q(3)] q(2) s1 t show ?thesis by simp
    qed
  next
    case (Disconnect c)
    with assms(1) have "\<sigma>1 = fst (disconnect \<sigma> c)" by auto
    then have "transferSessions \<sigma>1 = transferSessions \<sigma>" "pending \<sigma>1 = pending \<sigma>"
      by (simp_all add: disconnect_sessions disconnect_pending)
    with m d reg[of pw] show ?thesis by simp
  next
    case (Write_done n result t1)
    with assms(1) have s1: "\<sigma>1 = fst (upload_chunk_resume \<sigma> n result t1)" by auto
    have "pw \<in> set (pending \<sigma>)"
      using m s1 resume_pending_subset[of \<sigma> n result t1] by auto
    from reg[OF this d] obtain s where "transferSessions \<sigma> (pw_tid pw) = Some s" by auto
    with resume_sessions[of \<sigma> n result t1 "pw_tid pw"] s1 show ?thesis by simp
  next
    case (Create_transfer c tid now)
    with assms(1) have c: "create_transfer \<sigma> c tid now = Inr (\<sigma>1, out)" by simp
    note cr = create_transfer_Inr[OF c]
    from m cr detach_pending_mem[of pw \<sigma> tid] d obtain q where
      q: "q \<in> set (pending \<sigma>)" "pw_tid pw = pw_tid q" "pw_detached q = None" by auto
    from reg[OF q(1) q(3)] q(2) cr show ?thesis by simp
  next
    case (Upload_chunk c tid chunk i tot name fsize ftype t0)
    with assms(1) have u: "upload_chunk \<sigma> c tid chunk i tot name fsize ftype t0 = (\<sigma>1, out)" by simp
    from upload_chunk_cases[of \<sigma> c tid chunk i tot name fsize ftype t0] show ?thesis
    proof (elim disjE exE conjE)
      fix s s1
      assume "upload_chunk \<sigma> c tid chunk i tot name fsize ftype t0 =
        (\<sigma>\<lparr>transferSessions := (transferSessions \<sigma>)(tid \<mapsto> s1),
           pending := pending \<sigma> @ [\<lparr>pw_id = next_id \<sigma>, pw_socket = c, pw_tid = tid,
              pw_detached = None, pw_chunk = chunk, pw_index = i, pw_total = tot,
              pw_fileName = name, pw_fileSize = fsize, pw_fileType = ftype,
              pw_path = chunkPath (TEMP_DIR \<sigma>) tid i\<rparr>],
           next_id := Suc (next_id \<sigma>)\<rparr>, [])"
      with u m d reg[of pw] show ?thesis by auto
    qed (use u m d reg[of pw] in auto)
  next
    case (Join_transfer c tid)
    with assms(1) have j: "join_transfer \<sigma> c tid = Inr (\<sigma>1, out)" by simp
    from join_transfer_Inr[OF j] m d reg[of pw] show ?thesis by auto
  next
    case (Upload_complete c tid now)
    with assms(1) have "\<sigma>1 = fst (upload_complete \<sigma> c tid now)" by auto
    with upload_complete_pending[of \<sigma> c tid now] m d reg[of pw] show ?thesis by auto
  next
    case (Get_status c tid)
    with assms(1) have "\<sigma>1 = \<sigma>" by (auto simp: get_status_def split: option.splits)
    with m d reg[of pw] show ?thesis by simp
  next
    case (Connection c now)
    with assms(1) m d reg[of pw] show ?thesis
      by (auto simp: connection_handler_def)
  qed
  then show ?thesis
    by (auto simp: pending_registered_def list_all_iff pw_object_def split: option.splits)
qed

lemma run_pending_registered_from:
  assumes "run \<sigma> es = Inr (\<sigma>', out)" and "pending_registered \<sigma>"
  shows "pending_registered \<sigma>'"
  using assms
proof (induction es arbitrary: \<sigma> out)
  case Nil
  then show ?case by simp
next
  case (Cons e es)
  from Cons.prems(1) obtain \<sigma>1 out1 out2 where e: "on_event \<sigma> e = Inr (\<sigma>1, out1)"
    and r: "run \<sigma>1 es = Inr (\<sigma>', out2)" by (rule run_Cons_Inr)
  from Cons.IH[OF r on_event_pending_registered[OF e Cons.prems(2)]] show ?case .
qed

lemma run_pending_registered:
  assumes "run (init dir) es = Inr (\<sigma>, out)" and "pw \<in> set (pending \<sigma>)"
  shows "pw_object \<sigma> pw \<noteq> None"
proof -
  have "pending_registered (init dir)" by (simp add: pending_registered_def init_def)
  from run_pending_registered_from[OF assms(1) this] assms(2) show ?thesis
    by (simp add: pending_registered_def list_all_iff)
qed

text \<open>The numbers of the suspended handlers are below the next number to be given.\<close>

lemma resume_pending:
  "pending (fst (upload_chunk_resume \<sigma> n result t1)) = filter (\<lambda>q. pw_id q \<noteq> n) (pending \<sigma>)"
proof (cases "suspended \<sigma> n")
  case None
  then have "\<forall>q\<in>set (pending \<sigma>). pw_id q \<noteq> n" by (auto simp: suspended_def find_None_iff)
  then have "filter (\<lambda>q. pw_id q \<noteq> n) (pending \<sigma>) = pending \<sigma>" by (simp add: filter_id_conv)
  with None show ?thesis by (simp add: upload_chunk_resume_def)
next
  case (Some pw)
  then show ?thesis
    by (cases result) (auto simp: upload_chunk_resume_def Let_def split: option.splits)
qed

lemma resume_next_id: "next_id (fst (upload_chunk_resume \<sigma> n result t1)) = next_id \<sigma>"
  by (cases result) (auto simp: upload_chunk_resume_def Let_def split: option.splits)

lemma on_event_ids:
  assumes "on_event \<sigma> e = Inr (\<sigma>1, out)" and "\<forall>pw\<in>set (pending \<sigma>). pw_id pw < next_id \<sigma>"
  shows "\<forall>pw\<in>set (pending \<sigma>1). pw_id pw < next_id \<sigma>1"
proof (cases e)
  case (Timeout ok)
  with assms(1) have s1: "\<sigma>1 = timeout \<sigma> ok" by simp
  have n: "next_id (timeout \<sigma> ok) = next_id \<sigma>"
    by (simp add: timeout_def cleanupTransfer_def split: list.splits option.splits)
  from timeout_cases[of \<sigma> ok] show ?thesis
  proof (elim disjE conjE exE)
    assume "timeout \<sigma> ok = \<sigma>"
    with s1 assms(2) show ?thesis by simp
  next
    fix tid rest
    assume p: "pending (timeout \<sigma> ok) = detach_pending \<sigma> tid"
    show ?thesis
    proof
      fix pw assume "pw \<in> set (pending \<sigma>1)"
      with s1 p detach_pending_mem[of pw \<sigma> tid] obtain q where
        "q \<in> set (pending \<sigma>)" "pw_id pw = pw_id q" by auto
      with assms(2) s1 n show "pw_id pw < next_id \<sigma>1" by simp
    qed
  qed
next
  case (Disconnect c)
  with assms(1) have s1: "\<sigma>1 = fst (disconnect \<sigma> c)" by auto
  have "next_id (fst (disconnect \<sigma> c)) = next_id \<sigma>"
    by (auto simp: disconnect_def logActivity_def Let_def split: option.splits prod.splits if_splits)
  with s1 assms(2) show ?thesis by (simp add: disconnect_pending)
next
  case (Write_done n result t1)
  with assms(1) have "\<sigma>1 = fst (upload_chunk_resume \<sigma> n result t1)" by auto
  with assms(2) show ?thesis by (simp add: resume_pending resume_next_id)
next
  case (Create_transfer c tid now)
  with assms(1) have c: "create_transfer \<sigma> c tid now = Inr (\<sigma>1, out)" by simp
  then have n: "next_id \<sigma>1 = next_id \<sigma>"
    by (auto simp: create_transfer_def set_role_def logActivity_def Let_def
        split: option.splits sum.splits)
  note cr = create_transfer_Inr[OF c]
  show ?thesis
  proof
    fix pw assume "pw \<in> set (pending \<sigma>1)"
    with cr detach_pending_mem[of pw \<sigma> tid] obtain q where
      "q \<in> set (pending \<sigma>)" "pw_id pw = pw_id q" by auto
    with assms(2) n show "pw_id pw < next_id \<sigma>1" by simp
  qed
next
  case (Upload_chunk c tid chunk i tot name fsize ftype t0)
  with assms(1) have u: "upload_chunk \<sigma> c tid chunk i tot name fsize ftype t0 = (\<sigma>1, out)" by simp
  from upload_chunk_cases[of \<sigma> c tid chunk i tot name fsize ftype t0] u assms(2)
  show ?thesis by (elim disjE exE conjE) (auto simp: less_Suc_eq)
next
  case (Join_transfer c tid)
  with assms(1) have j: "join_transfer \<sigma> c tid = Inr (\<sigma>1, out)" by simp
  then have "next_id \<sigma>1 = next_id \<sigma>"
    by (auto simp: join_transfer_def set_role_def logActivity_def Let_def
        split: option.splits sum.splits if_splits)
  with join_transfer_Inr[OF j] assms(2) show ?thesis by simp
next
  case (Upload_complete c tid now)
  with assms(1) have s1: "\<sigma>1 = fst (upload_complete \<sigma> c tid now)" by auto
  have "next_id (fst (upload_complete \<sigma> c tid now)) = next_id \<sigma>"
    by (auto simp: upload_complete_def logActivity_def Let_def split: option.splits)
  with s1 upload_complete_pending[of \<sigma> c tid now] assms(2) show ?thesis by simp
next
  case (Get_status c tid)
  with assms(1) have "\<sigma>1 = \<sigma>" by (auto simp: get_status_def split: option.splits)
  with assms(2) show ?thesis by simp
next
  case (Connection c now)
  with assms show ?thesis by (auto simp: connection_handler_def)
qed

lemma run_ids:
  assumes "run \<sigma> es = Inr (\<sigma>', out)" and "\<forall>pw\<in>set (pending \<sigma>). pw_id pw < next_id \<sigma>"
  shows "\<forall>pw\<in>set (pending \<sigma>'). pw_id pw < next_id \<sigma>'"
  using assms
proof (induction es arbitrary: \<sigma> out)
  case Nil
  then show ?case by simp
next
  case (Cons e es)
  from Cons.prems(1) obtain \<sigma>1 out1 out2 where e: "on_event \<sigma> e = Inr (\<sigma>1, out1)"
    and r: "run \<sigma>1 es = Inr (\<sigma>', out2)" by (rule run_Cons_Inr)
  from Cons.IH[OF r on_event_ids[OF e Cons.prems(2)]] show ?case .
qed

text \<open>In every state the server reaches, the next number is not in use.\<close>

lemma run_next_id_fresh:
  assumes "run (init dir) es = Inr (\<sigma>, out)"
  shows "suspended \<sigma> (next_id \<sigma>) = None"
proof -
  have "\<forall>pw\<in>set (pending (init dir)). pw_id pw < next_id (init dir)" by (simp add: init_def)
  from run_ids[OF assms this] show ?thesis
    by (auto simp: suspended_def find_None_iff)
qed

text \<open>
  A suspended handler stays suspended, with the same closure values, until its own write
  settles; it keeps holding a session object, and a receiver bound on that object stays.
\<close>

lemma upload_chunk_casesE:
  obtains (rejected) err where
      "upload_chunk \<sigma> c tid chunk i tot name fsize ftype t0 = (\<sigma>, [(To_socket c, Error_event err None)])"
  | (accepted) s s1 where "transferSessions \<sigma> tid = Some s" "receiver s1 = receiver s"
      "upload_chunk \<sigma> c tid chunk i tot name fsize ftype t0 =
        (\<sigma>\<lparr>transferSessions := (transferSessions \<sigma>)(tid \<mapsto> s1),
           pending := pending \<sigma> @ [\<lparr>pw_id = next_id \<sigma>, pw_socket = c, pw_tid = tid,
              pw_detached = None, pw_chunk = chunk, pw_index = i, pw_total = tot,
              pw_fileName = name, pw_fileSize = fsize, pw_fileType = ftype,
              pw_path = chunkPath (TEMP_DIR \<sigma>) tid i\<rparr>],
           next_id := Suc (next_id \<sigma>)\<rparr>, [])"
  using upload_chunk_cases[of \<sigma> c tid chunk i tot name fsize ftype t0] by blast

lemma kept_suspended:
  assumes "suspended \<sigma> n = Some pw" and "pw_object \<sigma> pw = Some obj"
    and "suspended \<sigma>1 n = Some pw"
    and "\<And>s. transferSessions \<sigma> (pw_tid pw) = Some s \<Longrightarrow>
          \<exists>s1. transferSessions \<sigma>1 (pw_tid pw) = Some s1 \<and>
               (truthy (receiver s) \<longrightarrow> receiver s1 = receiver s)"
  shows "\<exists>d obj1. suspended \<sigma>1 n = Some (pw\<lparr>pw_detached := d\<rparr>) \<and>
           pw_object \<sigma>1 (pw\<lparr>pw_detached := d\<rparr>) = Some obj1 \<and>
           (truthy (receiver obj) \<longrightarrow> receiver obj1 = receiver obj)"
proof (cases "pw_detached pw")
  case None
  with assms(2) have "transferSessions \<sigma> (pw_tid pw) = Some obj" by (simp add: pw_object_def)
  from assms(4)[OF this] obtain s1 where "transferSessions \<sigma>1 (pw_tid pw) = Some s1"
    "truthy (receiver obj) \<longrightarrow> receiver s1 = receiver obj" by auto
  with None assms(3) show ?thesis
    by (intro exI[of _ None] exI[of _ s1]) (simp add: pw_object_def)
next
  case (Some o1)
  with assms(2) have "o1 = obj" by (simp add: pw_object_def)
  with Some assms(3) show ?thesis
    by (intro exI[of _ "Some obj"] exI[of _ obj]) (simp add: pw_object_def)
qed

lemma detach_suspended:
  assumes "suspended \<sigma> n = Some pw" and "pw_object \<sigma> pw = Some obj"
    and "pending \<sigma>1 = detach_pending \<sigma> tid"
    and "\<And>t. t \<noteq> tid \<Longrightarrow> transferSessions \<sigma>1 t = transferSessions \<sigma> t"
  shows "\<exists>d obj1. suspended \<sigma>1 n = Some (pw\<lparr>pw_detached := d\<rparr>) \<and>
           pw_object \<sigma>1 (pw\<lparr>pw_detached := d\<rparr>) = Some obj1 \<and>
           (truthy (receiver obj) \<longrightarrow> receiver obj1 = receiver obj)"
proof -
  have f: "suspended \<sigma>1 n = find (\<lambda>q. pw_id q = n) (detach_pending \<sigma> tid)"
    by (simp add: suspended_def assms(3))
  show ?thesis
  proof (cases "pw_detached pw")
    case (Some o1)
    with assms(2) have o: "o1 = obj" by (simp add: pw_object_def)
    from Some assms(1) have "suspended \<sigma>1 n = Some pw"
      unfolding f find_id_detach by (simp split: option.splits)
    with Some o show ?thesis
      by (intro exI[of _ "Some obj"] exI[of _ obj]) (simp add: pw_object_def)
  next
    case None
    with assms(2) have reg: "transferSessions \<sigma> (pw_tid pw) = Some obj" by (simp add: pw_object_def)
    show ?thesis
    proof (cases "pw_tid pw = tid")
      case True
      with reg None assms(1) have "suspended \<sigma>1 n = Some (pw\<lparr>pw_detached := Some obj\<rparr>)"
        unfolding f find_id_detach by simp
      then show ?thesis
        by (intro exI[of _ "Some obj"] exI[of _ obj]) (simp add: pw_object_def)
    next
      case False
      with None assms(1) have "suspended \<sigma>1 n = Some pw"
        unfolding f find_id_detach by (simp split: option.splits)
      moreover from False assms(4) reg have "transferSessions \<sigma>1 (pw_tid pw) = Some obj" by simp
      ultimately show ?thesis using None
        by (intro exI[of _ None] exI[of _ obj]) (simp add: pw_object_def)
    qed
  qed
qed

lemma on_event_suspended:
  assumes e: "on_event \<sigma> e = Inr (\<sigma>1, out)" and su: "suspended \<sigma> n = Some pw"
    and ns: "\<not> settles n e" and ob: "pw_object \<sigma> pw = Some obj"
  shows "\<exists>d obj1. suspended \<sigma>1 n = Some (pw\<lparr>pw_detached := d\<rparr>) \<and>
           pw_object \<sigma>1 (pw\<lparr>pw_detached := d\<rparr>) = Some obj1 \<and>
           (truthy (receiver obj) \<longrightarrow> receiver obj1 = receiver obj)"
proof (cases e)
  case (Timeout ok)
  with e have s1: "\<sigma>1 = timeout \<sigma> ok" by simp
  from timeout_cases[of \<sigma> ok] show ?thesis
  proof (elim disjE conjE exE)
    assume "timeout \<sigma> ok = \<sigma>"
    with s1 su show ?thesis by (intro kept_suspended[OF su ob]) auto
  next
    fix tid rest
    assume p: "pending (timeout \<sigma> ok) = detach_pending \<sigma> tid"
      and t: "transferSessions (timeout \<sigma> ok) = (transferSessions \<sigma>)(tid := None)"
    show ?thesis
      by (rule detach_suspended[OF su ob, of \<sigma>1 tid]) (simp_all add: s1 p t)
  qed
next
  case (Create_transfer c tid now)
  with e have c: "create_transfer \<sigma> c tid now = Inr (\<sigma>1, out)" by simp
  note cr = create_transfer_Inr[OF c]
  show ?thesis
    by (rule detach_suspended[OF su ob, of \<sigma>1 tid]) (simp_all add: cr)
next
  case (Disconnect c)
  with e have "\<sigma>1 = fst (disconnect \<sigma> c)" by auto
  then have "transferSessions \<sigma>1 = transferSessions \<sigma>" "pending \<sigma>1 = pending \<sigma>"
    by (simp_all add: disconnect_sessions disconnect_pending)
  with su show ?thesis by (intro kept_suspended[OF su ob]) (auto simp: suspended_def)
next
  case (Write_done m result t1)
  with e have s1: "\<sigma>1 = fst (upload_chunk_resume \<sigma> m result t1)" by auto
  from Write_done ns have "m \<noteq> n" by simp
  with su s1 have k: "suspended \<sigma>1 n = Some pw"
    by (simp add: suspended_def resume_pending find_id_filter)
  show ?thesis
  proof (rule kept_suspended[OF su ob k])
    fix s assume "transferSessions \<sigma> (pw_tid pw) = Some s"
    with resume_sessions[of \<sigma> m result t1 "pw_tid pw"] s1
    show "\<exists>s1. transferSessions \<sigma>1 (pw_tid pw) = Some s1 \<and>
               (truthy (receiver s) \<longrightarrow> receiver s1 = receiver s)"
      by (simp add: session_step_receiver)
  qed
next
  case (Upload_chunk c tid chunk i tot name fsize ftype t0)
  with e have u: "upload_chunk \<sigma> c tid chunk i tot name fsize ftype t0 = (\<sigma>1, out)" by simp
  show ?thesis
  proof (cases rule: upload_chunk_casesE[of \<sigma> c tid chunk i tot name fsize ftype t0])
    case (rejected err)
    with u have "\<sigma>1 = \<sigma>" by simp
    with su show ?thesis by (intro kept_suspended[OF su ob]) auto
  next
    case (accepted s s1)
    note a = accepted
    from a(3) u su have k: "suspended \<sigma>1 n = Some pw"
      by (auto simp: suspended_def find_id_append)
    show ?thesis
    proof (rule kept_suspended[OF su ob k])
      fix s' assume "transferSessions \<sigma> (pw_tid pw) = Some s'"
      with a u show "\<exists>s1. transferSessions \<sigma>1 (pw_tid pw) = Some s1 \<and>
               (truthy (receiver s') \<longrightarrow> receiver s1 = receiver s')" by auto
    qed
  qed
next
  case (Join_transfer c tid)
  with e have j: "join_transfer \<sigma> c tid = Inr (\<sigma>1, out)" by simp
  note jo = join_transfer_Inr[OF j]
  from jo su have k: "suspended \<sigma>1 n = Some pw" by (simp add: suspended_def)
  show ?thesis
  proof (rule kept_suspended[OF su ob k])
    fix s' assume "transferSessions \<sigma> (pw_tid pw) = Some s'"
    with jo show "\<exists>s1. transferSessions \<sigma>1 (pw_tid pw) = Some s1 \<and>
               (truthy (receiver s') \<longrightarrow> receiver s1 = receiver s')" by auto
  qed
next
  case (Upload_complete c tid now)
  with e have s1: "\<sigma>1 = fst (upload_complete \<sigma> c tid now)" by auto
  note uc = upload_complete_pending[of \<sigma> c tid now]
  from uc su s1 have k: "suspended \<sigma>1 n = Some pw" by (simp add: suspended_def)
  show ?thesis
  proof (rule kept_suspended[OF su ob k])
    fix s' assume "transferSessions \<sigma> (pw_tid pw) = Some s'"
    with uc s1 show "\<exists>s1. transferSessions \<sigma>1 (pw_tid pw) = Some s1 \<and>
               (truthy (receiver s') \<longrightarrow> receiver s1 = receiver s')" by auto
  qed
next
  case (Get_status c tid)
  with e have "\<sigma>1 = \<sigma>" by (auto simp: get_status_def split: option.splits)
  with su show ?thesis by (intro kept_suspended[OF su ob]) auto
next
  case (Connection c now)
  with e have "\<sigma>1 = connection_handler \<sigma> c now" by simp
  then have "transferSessions \<sigma>1 = transferSessions \<sigma>" "pending \<sigma>1 = pending \<sigma>"
    by (simp_all add: connection_handler_def)
  with su show ?thesis by (intro kept_suspended[OF su ob]) (auto simp: suspended_def)
qed

lemma run_suspended:
  assumes "run \<sigma> es = Inr (\<sigma>', out)" and "suspended \<sigma> n = Some pw"
    and "\<forall>e\<in>set es. \<not> settles n e" and "pw_object \<sigma> pw = Some obj"
  shows "\<exists>d obj'. suspended \<sigma>' n = Some (pw\<lparr>pw_detached := d\<rparr>) \<and>
           pw_object \<sigma>' (pw\<lparr>pw_detached := d\<rparr>) = Some obj' \<and>
           (truthy (receiver obj) \<longrightarrow> receiver obj' = receiver obj)"
  using assms
proof (induction es arbitrary: \<sigma> out pw obj)
  case Nil
  then show ?case
    by (intro exI[of _ "pw_detached pw"] exI[of _ obj]) simp
next
  case (Cons e es)
  from Cons.prems(1) obtain \<sigma>1 out1 out2 where e: "on_event \<sigma> e = Inr (\<sigma>1, out1)"
    and r: "run \<sigma>1 es = Inr (\<sigma>', out2)" by (rule run_Cons_Inr)
  from Cons.prems(3) have ns: "\<not> settles n e" and nss: "\<forall>e\<in>set es. \<not> settles n e" by simp_all
  from on_event_suspended[OF e Cons.prems(2) ns Cons.prems(4)] obtain d obj1 where
    a: "suspended \<sigma>1 n = Some (pw\<lparr>pw_detached := d\<rparr>)"
       "pw_object \<sigma>1 (pw\<lparr>pw_detached := d\<rparr>) = Some obj1"
       "truthy (receiver obj) \<longrightarrow> receiver obj1 = receiver obj" by blast
  from Cons.IH[OF r a(1) nss a(2)] obtain d' obj' where
    b: "suspended \<sigma>' n = Some (pw\<lparr>pw_detached := d'\<rparr>)"
       "pw_object \<sigma>' (pw\<lparr>pw_detached := d'\<rparr>) = Some obj'"
       "truthy (receiver obj1) \<longrightarrow> receiver obj' = receiver obj1" by auto
  from a(3) b(3) have "truthy (receiver obj) \<longrightarrow> receiver obj' = receiver obj" by auto
  with b(1,2) show ?case by blast
qed

text \<open>
  A \<open>receive-chunk\<close> is only ever emitted when the write of a suspended handler has
  succeeded, with the payload that handler holds; and the payloads held by suspended handlers
  are those of the \<open>upload-chunk\<close> events that suspended them.
\<close>

lemma on_event_relay_origin:
  assumes "on_event \<sigma> e = Inr (\<sigma>1, out)" and "(tg, Receive_chunk ch j k nm sz ty) \<in> set out"
  shows "\<exists>n t1 pw. e = Write_done n Written t1 \<and> suspended \<sigma> n = Some pw \<and>
           relay_of pw = Receive_chunk ch j k nm sz ty"
proof (cases e)
  case (Disconnect c)
  with assms show ?thesis
    by (auto simp: disconnect_def Let_def split: option.splits if_splits)
next
  case (Write_done n result t1)
  with assms show ?thesis
    by (cases result)
       (auto simp: upload_chunk_resume_def relay_of_def Let_def split: option.splits if_splits)
qed (use assms in \<open>auto simp: create_transfer_def join_transfer_def set_role_def
      upload_chunk_def upload_complete_def get_status_def Let_def
      split: option.splits sum.splits if_splits\<close>)

lemma on_event_pending_relays:
  assumes "on_event \<sigma> e = Inr (\<sigma>1, out)" and "Receive_chunk ch j k nm sz ty \<in> relay_of ` set (pending \<sigma>1)"
  shows "Receive_chunk ch j k nm sz ty \<in> relay_of ` set (pending \<sigma>) \<or>
         (\<exists>c tid t0. e = Upload_chunk c tid ch j k nm sz ty t0)"
proof (cases e)
  case (Timeout ok)
  with assms(1) have s1: "\<sigma>1 = timeout \<sigma> ok" by simp
  from timeout_cases[of \<sigma> ok] s1 assms(2) show ?thesis
    by (elim disjE conjE exE) (simp_all add: detach_relays)
next
  case (Disconnect c)
  with assms(1) have "\<sigma>1 = fst (disconnect \<sigma> c)" by auto
  with assms(2) show ?thesis by (simp add: disconnect_pending)
next
  case (Write_done n result t1)
  with assms(1) have "\<sigma>1 = fst (upload_chunk_resume \<sigma> n result t1)" by auto
  with assms(2) show ?thesis by (auto simp: resume_pending)
next
  case (Create_transfer c tid now)
  with assms(1) have c: "create_transfer \<sigma> c tid now = Inr (\<sigma>1, out)" by simp
  from create_transfer_Inr[OF c] assms(2) show ?thesis by (simp add: detach_relays)
next
  case (Upload_chunk c tid chunk i tot name fsize ftype t0)
  with assms(1) have u: "upload_chunk \<sigma> c tid chunk i tot name fsize ftype t0 = (\<sigma>1, out)" by simp
  from upload_chunk_cases[of \<sigma> c tid chunk i tot name fsize ftype t0] u assms(2) Upload_chunk
  show ?thesis by (elim disjE exE conjE) (auto simp: relay_of_def)
next
  case (Join_transfer c tid)
  with assms(1) have j: "join_transfer \<sigma> c tid = Inr (\<sigma>1, out)" by simp
  from join_transfer_Inr[OF j] assms(2) show ?thesis by simp
next
  case (Upload_complete c tid now)
  with assms(1) have "\<sigma>1 = fst (upload_complete \<sigma> c tid now)" by auto
  with upload_complete_pending[of \<sigma> c tid now] assms(2) show ?thesis by simp
next
  case (Get_status c tid)
  with assms(1) have "\<sigma>1 = \<sigma>" by (auto simp: get_status_def split: option.splits)
  with assms(2) show ?thesis by simp
next
  case (Connection c now)
  with assms show ?thesis by (auto simp: connection_handler_def)
qed

lemma run_pending_relays:
  assumes "run \<sigma> es = Inr (\<sigma>', out)"
    and "Receive_chunk ch j k nm sz ty \<in> relay_of ` set (pending \<sigma>')"
  shows "Receive_chunk ch j k nm sz ty \<in> relay_of ` set (pending \<sigma>) \<or>
         (\<exists>c tid t0. Upload_chunk c tid ch j k nm sz ty t0 \<in> set es)"
  using assms
proof (induction es arbitrary: \<sigma> out)
  case Nil
  then show ?case by simp
next
  case (Cons e es)
  from Cons.prems(1) obtain \<sigma>1 out1 out2 where e: "on_event \<sigma> e = Inr (\<sigma>1, out1)"
    and r: "run \<sigma>1 es = Inr (\<sigma>', out2)" by (rule run_Cons_Inr)
  from Cons.IH[OF r Cons.prems(2)] show ?case
  proof
    assume "Receive_chunk ch j k nm sz ty \<in> relay_of ` set (pending \<sigma>1)"
    from on_event_pending_relays[OF e this] show ?thesis by auto
  qed auto
qed

lemma run_relay_origin:
  assumes "run \<sigma> es = Inr (\<sigma>', out)" and "(tg, Receive_chunk ch j k nm sz ty) \<in> set out"
  shows "Receive_chunk ch j k nm sz ty \<in> relay_of ` set (pending \<sigma>) \<or>
         (\<exists>c tid t0. Upload_chunk c tid ch j k nm sz ty t0 \<in> set es)"
  using assms
proof (induction es arbitrary: \<sigma> out)
  case Nil
  then show ?case by simp
next
  case (Cons e es)
  from Cons.prems(1) obtain \<sigma>1 out1 out2 where e: "on_event \<sigma> e = Inr (\<sigma>1, out1)"
    and r: "run \<sigma>1 es = Inr (\<sigma>', out2)" and o: "out = out1 @ out2" by (rule run_Cons_Inr)
  from Cons.prems(2) o consider "(tg, Receive_chunk ch j k nm sz ty) \<in> set out1"
    | "(tg, Receive_chunk ch j k nm sz ty) \<in> set out2" by auto
  then show ?case
  proof cases
    case 1
    from on_event_relay_origin[OF e 1] obtain n t1 pw where
      "suspended \<sigma> n = Some pw" "relay_of pw = Receive_chunk ch j k nm sz ty" by blast
    with suspended_mem[of \<sigma> n pw] show ?thesis by force
  next
    case 2
    from Cons.IH[OF r 2] show ?thesis
    proof
      assume "Receive_chunk ch j k nm sz ty \<in> relay_of ` set (pending \<sigma>1)"
      from on_event_pending_relays[OF e this] show ?thesis by auto
    qed auto
  qed
qed

section \<open>Facts about the concrete states\<close>

lemma waiting_reachable:
  "run (init ''./temp'') [Connection ''s1'' 0, Connection ''r1'' 0, Create_transfer ''s1'' ''t1'' 1]
    = Inr (waiting_state, [(To_socket ''s1'', Transfer_created ''t1'')])"
  by (simp add: init_def waiting_state_def waiting_session_def handler_defs fun_upd_twist)

lemma example_reachable:
  "run (init ''./temp'') [Connection ''s1'' 0, Connection ''r1'' 0, Create_transfer ''s1'' ''t1'' 1, Join_transfer ''r1'' ''t1'']
    = Inr (example_state, [(To_socket ''s1'', Transfer_created ''t1''), (To_room ''s1'', Receiver_connected ''t1'' ''r1''),
        (To_socket ''r1'', Joined_transfer ''t1'')])"
  by (simp add: init_def example_state_def example_session_def connection_handler_def create_transfer_def
      join_transfer_def set_role_def logActivity_def truthy_def detach_pending_def Let_def fun_upd_twist)

lemma waiting_facts:
  "transferSessions waiting_state ''t1'' = Some waiting_session"
  "\<not> truthy (receiver waiting_session)"
  "sender waiting_session = ''s1''"
  "TEMP_DIR waiting_state = ''./temp''"
  "suspended waiting_state (next_id waiting_state) = None"
  by (simp_all add: waiting_state_def waiting_session_def truthy_def suspended_def)

lemma example_facts:
  "transferSessions example_state ''t1'' = Some example_session"
  "truthy (receiver example_session)"
  "receiver example_session = Some ''r1''"
  "sender example_session = ''s1''"
  "TEMP_DIR example_state = ''./temp''"
  by (simp_all add: example_state_def example_session_def truthy_def)

lemma stored_facts:
  "transferSessions stored_state ''t1'' = Some stored_session"
  "truthy (receiver stored_session)"
  "sender stored_session = ''s1''"
  "status stored_session = Uploading"
  by (simp_all add: stored_state_def stored_session_def example_session_def truthy_def)

lemma show_nat_0: "show_nat 0 = ''0''"
  by (simp add: show_nat.simps digit_def)

lemma show_nat_1: "show_nat (Suc 0) = ''1''"
  by (simp add: show_nat.simps digit_def)

lemma chunkPath_t1_0: "chunkPath ''./temp'' ''t1'' 0 = ''temp/t1_chunk_0''"
  by (simp add: chunkPath_def path_join_def normalize_def show_nat_0 Let_def)

lemma chunkPath_t1_1: "chunkPath ''./temp'' ''t1'' (Suc 0) = ''temp/t1_chunk_1''"
  by (simp add: chunkPath_def path_join_def normalize_def show_nat_1 Let_def)

lemma chunkPath_dot_t1_0: "chunkPath ''./temp'' ''./t1'' 0 = ''temp/t1_chunk_0''"
  by (simp add: chunkPath_def path_join_def normalize_def show_nat_0 Let_def)

text \<open>The first chunk arrives, the receiver joins while it is written, the write succeeds.\<close>

lemma arrived_step:
  "upload_chunk waiting_state ''s1'' ''t1'' ''AB'' 0 2 ''a.txt'' 4 ''text/plain'' 3 = (arrived_state, [])"
  by (simp add: upload_chunk_def arrived_state_def arrived_session_def first_write_def
      waiting_state_def waiting_session_def chunkPath_t1_0 Let_def)

lemma joined_step:
  "run arrived_state [Join_transfer ''r1'' ''t1''] =
     Inr (joined_state, [(To_room ''s1'', Receiver_connected ''t1'' ''r1''),
                         (To_socket ''r1'', Joined_transfer ''t1'')])"
  by (simp add: joined_state_def joined_session_def arrived_state_def arrived_session_def
      waiting_state_def waiting_session_def join_transfer_def set_role_def logActivity_def
      truthy_def Let_def fun_upd_twist)

lemma arrived_facts:
  "suspended arrived_state 0 = Some first_write"
  "held_object arrived_state 0 = Some arrived_session"
  "\<not> truthy (receiver arrived_session)"
  by (simp_all add: held_object_def suspended_def pw_object_def arrived_state_def
      arrived_session_def first_write_def waiting_state_def waiting_session_def truthy_def)

lemma joined_facts:
  "suspended joined_state 0 = Some first_write"
  "held_object joined_state 0 = Some joined_session"
  "truthy (receiver joined_session)"
  "receiver joined_session = Some ''r1''"
  by (simp_all add: held_object_def suspended_def pw_object_def joined_state_def
      joined_session_def arrived_state_def
      arrived_session_def first_write_def waiting_state_def waiting_session_def truthy_def)

lemma unpaired_step:
  "upload_chunk_resume arrived_state 0 Written 4 =
     (uploading_unpaired_state, [(To_socket ''s1'', Chunk_uploaded 0 2)])"
  by (simp add: upload_chunk_resume_def suspended_def pw_object_def uploading_unpaired_state_def
      uploading_unpaired_session_def arrived_state_def arrived_session_def first_write_def
      waiting_state_def waiting_session_def truthy_def Let_def numeral_2_eq_2)

lemma uploading_unpaired_facts:
  "transferSessions uploading_unpaired_state ''t1'' = Some uploading_unpaired_session"
  "status uploading_unpaired_session = Uploading"
  "\<not> truthy (receiver uploading_unpaired_session)"
  "sender uploading_unpaired_session = ''s1''"
  "pending uploading_unpaired_state = []"
  by (simp_all add: uploading_unpaired_state_def uploading_unpaired_session_def
      arrived_state_def arrived_session_def waiting_state_def waiting_session_def truthy_def)

lemma later_emitted:
  "emitted uploading_unpaired_state later_events =
   [(To_room ''s1'', Receiver_connected ''t1'' ''r1''), (To_socket ''r1'', Joined_transfer ''t1''),
    (To_socket ''r1'', Status_response Connected
       (Some \<lparr>fileName = ''a.txt'', fileSize = 4, fileType = ''text/plain'',
               totalChunks = 2, uploadStartTime = 3\<rparr>) 1 2),
    (To_room ''r1'', Receive_chunk ''CD'' 1 2 ''a.txt'' 4 ''text/plain''),
    (To_socket ''s1'', Chunk_uploaded 1 2),
    (To_room ''r1'', Transfer_complete ''t1''
       (Some \<lparr>fileName = ''a.txt'', fileSize = 4, fileType = ''text/plain'',
               totalChunks = 2, uploadStartTime = 3\<rparr>)),
    (To_room ''r1'', Peer_disconnected ''t1'' (Some Sender))]"
  by (simp add: emitted_def later_events_def uploading_unpaired_state_def
      uploading_unpaired_session_def arrived_state_def arrived_session_def
      waiting_state_def waiting_session_def handler_defs suspended_def chunkPath_t1_1)

section \<open>The two steps of an upload\<close>

text \<open>
  An \<open>upload-chunk\<close> from the sender of an existing session emits nothing when it arrives
  and suspends a handler with the values of the event; whatever is handled before its write
  settles, the handler is still suspended then, holding a session object, and a receiver that
  was bound when the chunk arrived is bound on that object.
\<close>

lemma upload_chunk_suspends:
  assumes fresh: "suspended \<sigma>0 (next_id \<sigma>0) = None"
    and s0: "transferSessions \<sigma>0 tid = Some s0" and c: "sender s0 = c"
    and arr: "upload_chunk \<sigma>0 c tid chunk i tot name fsize ftype t0 = (\<sigma>1, out1)"
    and run: "run \<sigma>1 es = Inr (\<sigma>, out2)" and ns: "\<forall>e\<in>set es. \<not> settles (next_id \<sigma>0) e"
  shows "out1 = [] \<and>
    (\<exists>d obj. suspended \<sigma> (next_id \<sigma>0) =
         Some \<lparr>pw_id = next_id \<sigma>0, pw_socket = c, pw_tid = tid, pw_detached = d,
               pw_chunk = chunk, pw_index = i, pw_total = tot, pw_fileName = name,
               pw_fileSize = fsize, pw_fileType = ftype,
               pw_path = chunkPath (TEMP_DIR \<sigma>0) tid i\<rparr> \<and>
       pw_object \<sigma> \<lparr>pw_id = next_id \<sigma>0, pw_socket = c, pw_tid = tid, pw_detached = d,
               pw_chunk = chunk, pw_index = i, pw_total = tot, pw_fileName = name,
               pw_fileSize = fsize, pw_fileType = ftype,
               pw_path = chunkPath (TEMP_DIR \<sigma>0) tid i\<rparr> = Some obj \<and>
       (truthy (receiver s0) \<longrightarrow> receiver obj = receiver s0))"
proof -
  let ?pw = "\<lparr>pw_id = next_id \<sigma>0, pw_socket = c, pw_tid = tid, pw_detached = None,
               pw_chunk = chunk, pw_index = i, pw_total = tot, pw_fileName = name,
               pw_fileSize = fsize, pw_fileType = ftype,
               pw_path = chunkPath (TEMP_DIR \<sigma>0) tid i\<rparr>"
  show ?thesis
  proof (cases rule: upload_chunk_casesE[of \<sigma>0 c tid chunk i tot name fsize ftype t0])
    case (rejected err)
    with s0 c show ?thesis by (simp add: upload_chunk_def)
  next
    case (accepted s s1)
    with s0 have s: "s = s0" by simp
    from accepted(3) arr have o1: "out1 = []"
      and p1: "pending \<sigma>1 = pending \<sigma>0 @ [?pw]"
      and t1: "transferSessions \<sigma>1 tid = Some s1" by auto
    from p1 fresh have su: "suspended \<sigma>1 (next_id \<sigma>0) = Some ?pw"
      by (simp add: suspended_def find_id_append)
    from t1 have ob: "pw_object \<sigma>1 ?pw = Some s1" by (simp add: pw_object_def)
    from run_suspended[OF run su ns ob] obtain d obj where
      a: "suspended \<sigma> (next_id \<sigma>0) = Some (?pw\<lparr>pw_detached := d\<rparr>)"
         "pw_object \<sigma> (?pw\<lparr>pw_detached := d\<rparr>) = Some obj"
         "truthy (receiver s1) \<longrightarrow> receiver obj = receiver s1" by blast
    from a(3) accepted(2) s have "truthy (receiver s0) \<longrightarrow> receiver obj = receiver s0" by simp
    with a(1,2) o1 show ?thesis by (intro conjI exI[of _ d] exI[of _ obj]) simp_all
  qed
qed

section \<open>Relaying a chunk\<close>

text \<open>
  C1. The state \<open>\<sigma>0\<close> is one in which the number the next suspended handler gets is
  not in use, as in every state the server reaches (lemma \<open>run_next_id_fresh\<close>). An
  \<open>upload-chunk\<close> on an existing session from its sender emits nothing when it
  arrives; its handler is suspended while the chunk is written, and other events are handled
  in between. When the write succeeds, the handler reads the receiver of the session object
  it holds at that moment, and the chunk is stored under its path (the file holds the chunk,
  provided no other write to that path and no cleanup overlapped with the write). If a
  receiver is bound then (\<open>session.receiver\<close> is truthy), which is the case whenever
  one was bound when the chunk arrived, and also when the receiver joined while the chunk
  was written, the events
  emitted are exactly the \<open>receive-chunk\<close> with the chunk and \<open>chunkIndex, totalChunks,
  fileName, fileSize, fileType\<close> to the receiver, followed by the \<open>chunk-uploaded\<close>
  acknowledgment to the sender. If no receiver is bound then, only the acknowledgment is
  emitted. In both cases the handler is finished, and in every later run of events each
  \<open>receive-chunk\<close> carries the payload of another handler, one that is suspended at that
  moment or one that an \<open>upload-chunk\<close> event of that run suspends: what was stored is
  never relayed afterwards.
\<close>
theorem upload_chunk_relay:
  assumes "suspended \<sigma>0 (next_id \<sigma>0) = None"
    and "transferSessions \<sigma>0 tid = Some s0" and "sender s0 = c"
    and "upload_chunk \<sigma>0 c tid chunk i tot name fsize ftype t0 = (\<sigma>1, out1)"
    and "run \<sigma>1 es = Inr (\<sigma>, out2)" and "\<forall>e\<in>set es. \<not> settles (next_id \<sigma>0) e"
    and "upload_chunk_resume \<sigma> (next_id \<sigma>0) Written t1 = (\<sigma>', out)"
  shows "out1 = [] \<and>
    (\<exists>obj. held_object \<sigma> (next_id \<sigma>0) = Some obj \<and>
       (truthy (receiver s0) \<longrightarrow> receiver obj = receiver s0) \<and>
       (truthy (receiver obj) \<longrightarrow>
          out = [(To_room (the (receiver obj)), Receive_chunk chunk i tot name fsize ftype),
                 (To_socket c, Chunk_uploaded i tot)]) \<and>
       (\<not> truthy (receiver obj) \<longrightarrow> out = [(To_socket c, Chunk_uploaded i tot)])) \<and>
    ((\<forall>q\<in>set (pending \<sigma>0). pw_path q \<noteq> chunkPath (TEMP_DIR \<sigma>0) tid i) \<and>
     (\<forall>e\<in>set es. \<not> disturbs (TEMP_DIR \<sigma>0) (chunkPath (TEMP_DIR \<sigma>0) tid i) e) \<longrightarrow>
       files \<sigma>' (chunkPath (TEMP_DIR \<sigma>0) tid i) = Some chunk) \<and>
    suspended \<sigma>' (next_id \<sigma>0) = None \<and>
    (\<forall>es' \<sigma>'' out' tg ch j k nm sz ty.
       run \<sigma>' es' = Inr (\<sigma>'', out') \<and> (tg, Receive_chunk ch j k nm sz ty) \<in> set out' \<longrightarrow>
       Receive_chunk ch j k nm sz ty \<in> relay_of ` set (pending \<sigma>') \<or>
       (\<exists>c' tid' t0'. Upload_chunk c' tid' ch j k nm sz ty t0' \<in> set es'))"
proof -
  from upload_chunk_suspends[OF assms(1-6)] obtain d obj where o1: "out1 = []"
    and su: "suspended \<sigma> (next_id \<sigma>0) =
         Some \<lparr>pw_id = next_id \<sigma>0, pw_socket = c, pw_tid = tid, pw_detached = d,
               pw_chunk = chunk, pw_index = i, pw_total = tot, pw_fileName = name,
               pw_fileSize = fsize, pw_fileType = ftype,
               pw_path = chunkPath (TEMP_DIR \<sigma>0) tid i\<rparr>"
    and ob: "pw_object \<sigma> \<lparr>pw_id = next_id \<sigma>0, pw_socket = c, pw_tid = tid, pw_detached = d,
               pw_chunk = chunk, pw_index = i, pw_total = tot, pw_fileName = name,
               pw_fileSize = fsize, pw_fileType = ftype,
               pw_path = chunkPath (TEMP_DIR \<sigma>0) tid i\<rparr> = Some obj"
    and rc: "truthy (receiver s0) \<longrightarrow> receiver obj = receiver s0" by blast
  from su ob have ho: "held_object \<sigma> (next_id \<sigma>0) = Some obj" by (simp add: held_object_def)
  from assms(7) su ob have t: "truthy (receiver obj) \<longrightarrow>
          out = [(To_room (the (receiver obj)), Receive_chunk chunk i tot name fsize ftype),
                 (To_socket c, Chunk_uploaded i tot)]"
    and f: "\<not> truthy (receiver obj) \<longrightarrow> out = [(To_socket c, Chunk_uploaded i tot)]"
    and fl: "files \<sigma>' (chunkPath (TEMP_DIR \<sigma>0) tid i) = Some chunk"
    by (auto simp: upload_chunk_resume_def Let_def)
  from assms(7) have "\<sigma>' = fst (upload_chunk_resume \<sigma> (next_id \<sigma>0) Written t1)" by simp
  then have gone: "suspended \<sigma>' (next_id \<sigma>0) = None"
    by (simp add: suspended_def resume_pending find_id_filter)
  have later: "Receive_chunk ch j k nm sz ty \<in> relay_of ` set (pending \<sigma>') \<or>
       (\<exists>c' tid' t0'. Upload_chunk c' tid' ch j k nm sz ty t0' \<in> set es')"
    if "run \<sigma>' es' = Inr (\<sigma>'', out') \<and> (tg, Receive_chunk ch j k nm sz ty) \<in> set out'"
    for es' \<sigma>'' out' tg ch j k nm sz ty
    using that run_relay_origin[of \<sigma>' es' \<sigma>'' out' tg ch j k nm sz ty] by blast
  from o1 ho rc t f fl gone later show ?thesis by blast
qed

theorem upload_chunk_relay_witness:
  "suspended waiting_state (next_id waiting_state) = None \<and>
   transferSessions waiting_state ''t1'' = Some waiting_session \<and>
   sender waiting_session = ''s1'' \<and> \<not> truthy (receiver waiting_session) \<and>
   upload_chunk waiting_state ''s1'' ''t1'' ''AB'' 0 2 ''a.txt'' 4 ''text/plain'' 3
     = (arrived_state, []) \<and>
   run arrived_state [Join_transfer ''r1'' ''t1''] =
     Inr (joined_state, [(To_room ''s1'', Receiver_connected ''t1'' ''r1''),
                         (To_socket ''r1'', Joined_transfer ''t1'')]) \<and>
   \<not> list_ex (settles (next_id waiting_state)) [Join_transfer ''r1'' ''t1''] \<and>
   held_object joined_state (next_id waiting_state) = Some joined_session \<and>
   receiver joined_session = Some ''r1'' \<and>
   snd (upload_chunk_resume joined_state (next_id waiting_state) Written 4) =
     [(To_room ''r1'', Receive_chunk ''AB'' 0 2 ''a.txt'' 4 ''text/plain''),
      (To_socket ''s1'', Chunk_uploaded 0 2)] \<and>
   pending waiting_state = [] \<and>
   \<not> list_ex (disturbs (TEMP_DIR waiting_state) ''temp/t1_chunk_0'') [Join_transfer ''r1'' ''t1''] \<and>
   files (fst (upload_chunk_resume joined_state (next_id waiting_state) Written 4))
     ''temp/t1_chunk_0'' = Some ''AB'' \<and>
   run arrived_state [] = Inr (arrived_state, []) \<and>
   held_object arrived_state (next_id waiting_state) = Some arrived_session \<and>
   \<not> truthy (receiver arrived_session) \<and>
   upload_chunk_resume arrived_state (next_id waiting_state) Written 4 =
     (uploading_unpaired_state, [(To_socket ''s1'', Chunk_uploaded 0 2)]) \<and>
   pending uploading_unpaired_state = [] \<and>
   (To_room ''r1'', Receive_chunk ''CD'' 1 2 ''a.txt'' 4 ''text/plain'') \<in> set
     (emitted uploading_unpaired_state later_events) \<and>
   Upload_chunk ''s1'' ''t1'' ''CD'' 1 2 ''a.txt'' 4 ''text/plain'' 5 \<in> set later_events"
proof -
  have n0: "next_id waiting_state = 0" by (simp add: waiting_state_def)
  let ?j = "upload_chunk_resume joined_state (next_id waiting_state) Written 4"
  have eq: "?j = (fst ?j, snd ?j)" by simp
  have ns: "\<forall>e\<in>set [Join_transfer ''r1'' ''t1'']. \<not> settles (next_id waiting_state) e"
    "\<forall>e\<in>set []. \<not> settles (next_id waiting_state) e" by simp_all
  \<comment> \<open>the receiver joins while the chunk is written\<close>
  from upload_chunk_relay[OF waiting_facts(5) waiting_facts(1) waiting_facts(3) arrived_step
      joined_step ns(1) eq]
  obtain obj where "held_object joined_state (next_id waiting_state) = Some obj"
    and "truthy (receiver obj) \<longrightarrow>
          snd ?j = [(To_room (the (receiver obj)), Receive_chunk ''AB'' 0 2 ''a.txt'' 4 ''text/plain''),
                 (To_socket ''s1'', Chunk_uploaded 0 2)]"
    and fl: "(\<forall>q\<in>set (pending waiting_state).
                pw_path q \<noteq> chunkPath (TEMP_DIR waiting_state) ''t1'' 0) \<and>
             (\<forall>e\<in>set [Join_transfer ''r1'' ''t1''].
                \<not> disturbs (TEMP_DIR waiting_state) (chunkPath (TEMP_DIR waiting_state) ''t1'' 0) e)
             \<longrightarrow> files (fst ?j) (chunkPath (TEMP_DIR waiting_state) ''t1'' 0) = Some ''AB''"
    by blast
  with joined_facts n0 have a: "snd ?j =
     [(To_room ''r1'', Receive_chunk ''AB'' 0 2 ''a.txt'' 4 ''text/plain''),
      (To_socket ''s1'', Chunk_uploaded 0 2)]" by simp
  have pe: "pending waiting_state = []" by (simp add: waiting_state_def)
  from fl pe have b: "files (fst ?j) ''temp/t1_chunk_0'' = Some ''AB''"
    by (simp add: waiting_facts chunkPath_t1_0)
  \<comment> \<open>no receiver is bound when the write succeeds\<close>
  have r0: "run arrived_state [] = Inr (arrived_state, [])" by simp
  have u: "upload_chunk_resume arrived_state (next_id waiting_state) Written 4 =
     (uploading_unpaired_state, [(To_socket ''s1'', Chunk_uploaded 0 2)])"
    by (simp add: n0 unpaired_step)
  note w = upload_chunk_relay[OF waiting_facts(5) waiting_facts(1) waiting_facts(3) arrived_step
      r0 ns(2) u]
  have d: "(To_room ''r1'', Receive_chunk ''CD'' 1 2 ''a.txt'' 4 ''text/plain'') \<in> set
     (emitted uploading_unpaired_state later_events)"
    unfolding later_emitted by simp
  then obtain \<sigma>'' out' where r: "run uploading_unpaired_state later_events = Inr (\<sigma>'', out')"
    and m: "(To_room ''r1'', Receive_chunk ''CD'' 1 2 ''a.txt'' 4 ''text/plain'') \<in> set out'"
    by (rule emittedD)
  from w[THEN conjunct2, THEN conjunct2, THEN conjunct2, THEN conjunct2, rule_format,
      OF conjI[OF r m]] uploading_unpaired_facts(5)
  have "\<exists>c' tid' t0'. Upload_chunk c' tid' ''CD'' 1 2 ''a.txt'' 4 ''text/plain'' t0'
          \<in> set later_events" by simp
  then have e: "Upload_chunk ''s1'' ''t1'' ''CD'' 1 2 ''a.txt'' 4 ''text/plain'' 5 \<in> set later_events"
    by (auto simp: later_events_def)
  from a b d e u r0 n0 pe arrived_step joined_step waiting_facts arrived_facts joined_facts
    uploading_unpaired_facts
  show ?thesis by simp
qed

section \<open>A failed write\<close>

text \<open>
  C2 does not hold as stated: the handler stores fileInfo and sets the status when the chunk
  arrives, before it attempts the write, so a failed write of the chunk with index 0 leaves a
  session that was \<open>waiting\<close> without fileInfo in status \<open>uploading\<close> with fileInfo set.
\<close>
theorem upload_chunk_failed_write_counterexample:
  "transferSessions waiting_state ''t1'' = Some waiting_session \<and> sender waiting_session = ''s1'' \<and>
   status waiting_session = Waiting \<and> fileInfo waiting_session = None \<and>
   emitted waiting_state
     [Upload_chunk ''s1'' ''t1'' ''AB'' 0 2 ''a.txt'' 4 ''text/plain'' 3,
      Write_done 0 (Write_failed None) 4] =
     [(To_socket ''s1'', Error_event CHUNK_SAVE_ERROR (Some 0))] \<and>
   map_option status (session_after waiting_state
     [Upload_chunk ''s1'' ''t1'' ''AB'' 0 2 ''a.txt'' 4 ''text/plain'' 3,
      Write_done 0 (Write_failed None) 4] ''t1'') = Some Uploading \<and>
   map_option fileInfo (session_after waiting_state
     [Upload_chunk ''s1'' ''t1'' ''AB'' 0 2 ''a.txt'' 4 ''text/plain'' 3,
      Write_done 0 (Write_failed None) 4] ''t1'') =
     Some (Some \<lparr>fileName = ''a.txt'', fileSize = 4, fileType = ''text/plain'',
                  totalChunks = 2, uploadStartTime = 3\<rparr>)"
  by (simp add: emitted_def session_after_def upload_chunk_def upload_chunk_resume_def
      suspended_def waiting_state_def waiting_session_def Let_def)

text \<open>
  C2, amended. The state \<open>\<sigma>0\<close> is one in which the number the next suspended handler
  gets is not in use, as in every state the server reaches. An \<open>upload-chunk\<close> on an
  existing session from its sender emits nothing when it arrives, and of the sessions it changes only this one: not at all for a \<open>chunkIndex\<close>
  other than 0, and for \<open>chunkIndex\<close> 0 by storing fileInfo from the event and setting the
  status \<open>uploading\<close>. When its write fails, whatever was handled in between,
  \<open>CHUNK_SAVE_ERROR\<close> with the index goes to the sender and to nobody else, the handler is
  finished, and every session is as it was before the failure was handled: no chunk metadata
  is recorded.
\<close>
theorem upload_chunk_failed_write:
  assumes "suspended \<sigma>0 (next_id \<sigma>0) = None"
    and "transferSessions \<sigma>0 tid = Some s0" and "sender s0 = c"
    and "upload_chunk \<sigma>0 c tid chunk i tot name fsize ftype t0 = (\<sigma>1, out1)"
    and "run \<sigma>1 es = Inr (\<sigma>, out2)" and "\<forall>e\<in>set es. \<not> settles (next_id \<sigma>0) e"
    and "upload_chunk_resume \<sigma> (next_id \<sigma>0) (Write_failed left) t1 = (\<sigma>', out)"
  shows "out1 = [] \<and>
    (i \<noteq> 0 \<longrightarrow> transferSessions \<sigma>1 = transferSessions \<sigma>0) \<and>
    (i = 0 \<longrightarrow> transferSessions \<sigma>1 = (transferSessions \<sigma>0)(tid \<mapsto>
        s0\<lparr>fileInfo := Some \<lparr>fileName = name, fileSize = fsize, fileType = ftype,
                             totalChunks = tot, uploadStartTime = t0\<rparr>,
           status := Uploading\<rparr>)) \<and>
    out = [(To_socket c, Error_event CHUNK_SAVE_ERROR (Some i))] \<and>
    transferSessions \<sigma>' = transferSessions \<sigma> \<and>
    suspended \<sigma>' (next_id \<sigma>0) = None"
proof -
  from upload_chunk_suspends[OF assms(1-6)] obtain d where o1: "out1 = []"
    and su: "suspended \<sigma> (next_id \<sigma>0) =
         Some \<lparr>pw_id = next_id \<sigma>0, pw_socket = c, pw_tid = tid, pw_detached = d,
               pw_chunk = chunk, pw_index = i, pw_total = tot, pw_fileName = name,
               pw_fileSize = fsize, pw_fileType = ftype,
               pw_path = chunkPath (TEMP_DIR \<sigma>0) tid i\<rparr>" by blast
  from assms(2,3,4) have a: "i \<noteq> 0 \<longrightarrow> transferSessions \<sigma>1 = transferSessions \<sigma>0"
    and b: "i = 0 \<longrightarrow> transferSessions \<sigma>1 = (transferSessions \<sigma>0)(tid \<mapsto>
        s0\<lparr>fileInfo := Some \<lparr>fileName = name, fileSize = fsize, fileType = ftype,
                             totalChunks = tot, uploadStartTime = t0\<rparr>,
           status := Uploading\<rparr>)"
    by (auto simp: upload_chunk_def Let_def map_upd_triv)
  from assms(7) su have o: "out = [(To_socket c, Error_event CHUNK_SAVE_ERROR (Some i))]"
    and t: "transferSessions \<sigma>' = transferSessions \<sigma>"
    by (auto simp: upload_chunk_resume_def Let_def)
  from assms(7) have "\<sigma>' = fst (upload_chunk_resume \<sigma> (next_id \<sigma>0) (Write_failed left) t1)"
    by simp
  then have gone: "suspended \<sigma>' (next_id \<sigma>0) = None"
    by (simp add: suspended_def resume_pending find_id_filter)
  from o1 a b o t gone show ?thesis by blast
qed

theorem upload_chunk_failed_write_witness:
  "suspended waiting_state (next_id waiting_state) = None \<and>
   transferSessions waiting_state ''t1'' = Some waiting_session \<and> sender waiting_session = ''s1'' \<and>
   snd (upload_chunk waiting_state ''s1'' ''t1'' ''CD'' 1 2 ''a.txt'' 4 ''text/plain'' 3) = [] \<and>
   transferSessions (fst (upload_chunk waiting_state ''s1'' ''t1'' ''CD'' 1 2 ''a.txt'' 4 ''text/plain'' 3))
     = transferSessions waiting_state \<and>
   snd (upload_chunk_resume
         (fst (upload_chunk waiting_state ''s1'' ''t1'' ''CD'' 1 2 ''a.txt'' 4 ''text/plain'' 3))
         (next_id waiting_state) (Write_failed (Some [])) 4) =
     [(To_socket ''s1'', Error_event CHUNK_SAVE_ERROR (Some 1))] \<and>
   transferSessions (fst (upload_chunk_resume
         (fst (upload_chunk waiting_state ''s1'' ''t1'' ''CD'' 1 2 ''a.txt'' 4 ''text/plain'' 3))
         (next_id waiting_state) (Write_failed (Some [])) 4)) = transferSessions waiting_state \<and>
   upload_chunk waiting_state ''s1'' ''t1'' ''AB'' 0 2 ''a.txt'' 4 ''text/plain'' 3
     = (arrived_state, []) \<and>
   run arrived_state [Join_transfer ''r1'' ''t1''] =
     Inr (joined_state, [(To_room ''s1'', Receiver_connected ''t1'' ''r1''),
                         (To_socket ''r1'', Joined_transfer ''t1'')]) \<and>
   \<not> list_ex (settles (next_id waiting_state)) [Join_transfer ''r1'' ''t1''] \<and>
   snd (upload_chunk_resume joined_state (next_id waiting_state) (Write_failed None) 4) =
     [(To_socket ''s1'', Error_event CHUNK_SAVE_ERROR (Some 0))] \<and>
   transferSessions (fst (upload_chunk_resume joined_state (next_id waiting_state) (Write_failed None) 4))
     ''t1'' = Some joined_session"
proof -
  let ?a = "upload_chunk waiting_state ''s1'' ''t1'' ''CD'' 1 2 ''a.txt'' 4 ''text/plain'' 3"
  let ?b = "upload_chunk_resume (fst ?a) (next_id waiting_state) (Write_failed (Some [])) 4"
  let ?c = "upload_chunk_resume joined_state (next_id waiting_state) (Write_failed None) 4"
  have eq: "?a = (fst ?a, snd ?a)" "?b = (fst ?b, snd ?b)" "?c = (fst ?c, snd ?c)" by simp_all
  have r0: "run (fst ?a) [] = Inr (fst ?a, [])" by simp
  have ns: "\<forall>e\<in>set []. \<not> settles (next_id waiting_state) e"
    "\<forall>e\<in>set [Join_transfer ''r1'' ''t1'']. \<not> settles (next_id waiting_state) e" by simp_all
  from upload_chunk_failed_write[OF waiting_facts(5) waiting_facts(1) waiting_facts(3) eq(1) r0
      ns(1) eq(2)]
  have a: "snd ?a = []" "transferSessions (fst ?a) = transferSessions waiting_state"
    "snd ?b = [(To_socket ''s1'', Error_event CHUNK_SAVE_ERROR (Some 1))]"
    "transferSessions (fst ?b) = transferSessions (fst ?a)" by simp_all
  from upload_chunk_failed_write[OF waiting_facts(5) waiting_facts(1) waiting_facts(3) arrived_step
      joined_step ns(2) eq(3)]
  have b: "snd ?c = [(To_socket ''s1'', Error_event CHUNK_SAVE_ERROR (Some 0))]"
    "transferSessions (fst ?c) = transferSessions joined_state" by simp_all
  have j: "transferSessions joined_state ''t1'' = Some joined_session"
    by (simp add: joined_state_def)
  from a b j arrived_step joined_step waiting_facts show ?thesis by simp
qed

section \<open>The status of a session\<close>

text \<open>
  C3 does not hold as stated: a join on a session without receiver sets \<open>connected\<close>
  whatever the status is, so a receiver that joins after the first chunk takes the status from
  \<open>uploading\<close> back to \<open>connected\<close>; and a chunk with index 0 sets \<open>uploading\<close> also
  after completion.
\<close>
theorem status_regression_counterexample:
  "map_option status (session_after waiting_state
      [Upload_chunk ''s1'' ''t1'' ''AB'' 0 2 ''a.txt'' 4 ''text/plain'' 3,
       Write_done 0 Written 4] ''t1'') = Some Uploading \<and>
   map_option status (session_after waiting_state
      [Upload_chunk ''s1'' ''t1'' ''AB'' 0 2 ''a.txt'' 4 ''text/plain'' 3,
       Write_done 0 Written 4,
       Join_transfer ''r1'' ''t1''] ''t1'') = Some Connected \<and>
   map_option status (session_after example_state
      [Upload_complete ''s1'' ''t1'' 5] ''t1'') = Some Completed \<and>
   map_option status (session_after example_state
      [Upload_complete ''s1'' ''t1'' 5,
       Upload_chunk ''s1'' ''t1'' ''AB'' 0 2 ''a.txt'' 4 ''text/plain'' 6] ''t1'') = Some Uploading"
  by (simp add: session_after_def waiting_state_def waiting_session_def example_state_def
      example_session_def handler_defs suspended_def)

text \<open>
  C3, amended. For a session that is not created anew, every single operation either leaves
  the status or moves it forward along \<open>waiting \<rightarrow> connected \<rightarrow> uploading \<rightarrow> completed\<close>,
  with two exceptions: a join on a session that has no receiver sets \<open>connected\<close>, and a
  chunk with index 0 from the sender sets \<open>uploading\<close>, whatever the status was. So over
  every run of events: a status other than \<open>waiting\<close> never becomes \<open>waiting\<close> again; once
  a receiver is bound, a status \<open>uploading\<close> or \<open>completed\<close> never becomes \<open>waiting\<close> or
  \<open>connected\<close> again; and once a receiver is bound, the status only moves forward as long as
  the sender uploads no further chunk with index 0.
\<close>
theorem status_transitions:
  assumes "transferSessions \<sigma> tid = Some s"
  shows "(\<forall>e \<sigma>1 out1 s1. on_event \<sigma> e = Inr (\<sigma>1, out1) \<and> \<not> creates tid e \<and>
            transferSessions \<sigma>1 tid = Some s1 \<longrightarrow>
            status_rank (status s) \<le> status_rank (status s1) \<or>
            (\<exists>c. e = Join_transfer c tid \<and> \<not> truthy (receiver s) \<and> status s1 = Connected) \<or>
            (first_chunk_from tid (sender s) e \<and> status s1 = Uploading)) \<and>
         (\<forall>es \<sigma>' out s'. run \<sigma> es = Inr (\<sigma>', out) \<and> (\<forall>e\<in>set es. \<not> creates tid e) \<and>
            transferSessions \<sigma>' tid = Some s' \<longrightarrow>
            (status s \<noteq> Waiting \<longrightarrow> status s' \<noteq> Waiting) \<and>
            (truthy (receiver s) \<and> status s \<in> {Uploading, Completed} \<longrightarrow>
               status s' \<in> {Uploading, Completed}) \<and>
            (truthy (receiver s) \<and> (\<forall>e\<in>set es. \<not> first_chunk_from tid (sender s) e) \<longrightarrow>
               status_rank (status s) \<le> status_rank (status s')))"
proof (intro conjI allI impI)
  fix e \<sigma>1 out1 s1
  assume a: "on_event \<sigma> e = Inr (\<sigma>1, out1) \<and> \<not> creates tid e \<and> transferSessions \<sigma>1 tid = Some s1"
  with on_event_session[of \<sigma> e \<sigma>1 out1 tid s] assms
  have "s1 = session_step \<sigma> tid s e" by auto
  with session_step_status[of s \<sigma> tid e]
  show "status_rank (status s) \<le> status_rank (status s1) \<or>
            (\<exists>c. e = Join_transfer c tid \<and> \<not> truthy (receiver s) \<and> status s1 = Connected) \<or>
            (first_chunk_from tid (sender s) e \<and> status s1 = Uploading)" by simp
next
  fix es \<sigma>' out s'
  assume r: "run \<sigma> es = Inr (\<sigma>', out) \<and> (\<forall>e\<in>set es. \<not> creates tid e) \<and>
            transferSessions \<sigma>' tid = Some s'"
  assume "status s \<noteq> Waiting"
  then show "status s' \<noteq> Waiting"
    using r assms
    by (rule_tac run_session_invariant[where P = "\<lambda>x. status x \<noteq> Waiting" and bad = "creates tid"
          and tid = tid and \<sigma> = \<sigma> and es = es and s = s])
       (auto simp: session_step_not_waiting)
next
  fix es \<sigma>' out s'
  assume r: "run \<sigma> es = Inr (\<sigma>', out) \<and> (\<forall>e\<in>set es. \<not> creates tid e) \<and>
            transferSessions \<sigma>' tid = Some s'"
  assume a: "truthy (receiver s) \<and> status s \<in> {Uploading, Completed}"
  from r have r1: "run \<sigma> es = Inr (\<sigma>', out)" and r2: "\<forall>e\<in>set es. \<not> creates tid e"
    and r3: "transferSessions \<sigma>' tid = Some s'" by simp_all
  have "truthy (receiver s') \<and> status s' \<in> {Uploading, Completed}"
    by (rule run_session_invariant[where
          P = "\<lambda>x. truthy (receiver x) \<and> status x \<in> {Uploading, Completed}"
          and bad = "creates tid" and tid = tid, OF _ _ r1 r2 assms a r3])
       (use session_step_paired in blast)+
  then show "status s' \<in> {Uploading, Completed}" by simp
next
  fix es \<sigma>' out s'
  assume r: "run \<sigma> es = Inr (\<sigma>', out) \<and> (\<forall>e\<in>set es. \<not> creates tid e) \<and>
            transferSessions \<sigma>' tid = Some s'"
  assume a: "truthy (receiver s) \<and> (\<forall>e\<in>set es. \<not> first_chunk_from tid (sender s) e)"
  from r have r1: "run \<sigma> es = Inr (\<sigma>', out)" and r2: "\<forall>e\<in>set es. \<not> creates tid e"
    and r3: "transferSessions \<sigma>' tid = Some s'" by simp_all
  let ?P = "\<lambda>x. truthy (receiver x) \<and> sender x = sender s \<and>
                 status_rank (status s) \<le> status_rank (status x)"
  let ?bad = "\<lambda>e. creates tid e \<or> first_chunk_from tid (sender s) e"
  have "?P s'"
  proof (rule run_session_invariant[where P = ?P and bad = ?bad and tid = tid,
          OF _ _ r1 _ assms _ r3])
    show "?P (session_step \<sigma>2 tid x e)" if "\<not> ?bad e" "?P x" for \<sigma>2 x e
      using that session_step_rank[of tid x e \<sigma>2] session_step_sender[of \<sigma>2 tid x e]
      by auto
    show "\<forall>e\<in>set es. \<not> ?bad e" using r2 a by auto
    show "?P s" using a by simp
  qed simp
  then show "status_rank (status s) \<le> status_rank (status s')" by simp
qed

theorem status_transitions_witness:
  "transferSessions uploading_unpaired_state ''t1'' = Some uploading_unpaired_session \<and>
   status uploading_unpaired_session = Uploading \<and>
   \<not> truthy (receiver uploading_unpaired_session) \<and>
   \<not> creates ''t1'' (Join_transfer ''r1'' ''t1'') \<and>
   map_option status (session_after uploading_unpaired_state [Join_transfer ''r1'' ''t1''] ''t1'')
     = Some Connected \<and>
   \<not> status_rank Uploading \<le> status_rank Connected \<and>
   transferSessions example_state ''t1'' = Some example_session \<and>
   status example_session = Connected \<and> truthy (receiver example_session) \<and>
   \<not> list_ex (creates ''t1'') forward_events \<and>
   \<not> list_ex (first_chunk_from ''t1'' (sender example_session)) forward_events \<and>
   map_option status (session_after example_state forward_events ''t1'') = Some Completed \<and>
   transferSessions stored_state ''t1'' = Some stored_session \<and>
   status stored_session = Uploading \<and> truthy (receiver stored_session) \<and>
   \<not> list_ex (creates ''t1'') example_events \<and>
   map_option status (session_after stored_state example_events ''t1'') = Some Completed"
proof -
  have ev: "\<forall>e\<in>set forward_events. \<not> creates ''t1'' e"
    "\<forall>e\<in>set forward_events. \<not> first_chunk_from ''t1'' (sender example_session) e"
    "\<forall>e\<in>set example_events. \<not> creates ''t1'' e"
    by (simp_all add: forward_events_def example_events_def)
  \<comment> \<open>one step: the join of a receiver after the first chunk\<close>
  have j: "map_option status (session_after uploading_unpaired_state [Join_transfer ''r1'' ''t1''] ''t1'')
     = Some Connected"
    by (simp add: session_after_def uploading_unpaired_state_def uploading_unpaired_session_def
        arrived_state_def arrived_session_def waiting_state_def waiting_session_def handler_defs)
  then obtain j' where j': "session_after uploading_unpaired_state [Join_transfer ''r1'' ''t1''] ''t1''
      = Some j'" by auto
  from j' obtain \<sigma>j outj where rj: "run uploading_unpaired_state [Join_transfer ''r1'' ''t1''] = Inr (\<sigma>j, outj)"
    and tj: "transferSessions \<sigma>j ''t1'' = Some j'" by (rule session_afterD)
  from rj obtain \<sigma>1 o1 o2 where oj: "on_event uploading_unpaired_state (Join_transfer ''r1'' ''t1'') = Inr (\<sigma>1, o1)"
    and r0: "run \<sigma>1 [] = Inr (\<sigma>j, o2)" by (rule run_Cons_Inr)
  from r0 have "\<sigma>1 = \<sigma>j" by simp
  with oj have oj': "on_event uploading_unpaired_state (Join_transfer ''r1'' ''t1'') = Inr (\<sigma>j, o1)"
    by simp
  have nc: "\<not> creates ''t1'' (Join_transfer ''r1'' ''t1'')" by simp
  note step = status_transitions[OF uploading_unpaired_facts(1), THEN conjunct1, rule_format]
  have h0: "status_rank (status uploading_unpaired_session) \<le> status_rank (status j') \<or>
      (\<exists>c. Join_transfer ''r1'' ''t1'' = Join_transfer c ''t1'' \<and>
           \<not> truthy (receiver uploading_unpaired_session) \<and> status j' = Connected) \<or>
      (first_chunk_from ''t1'' (sender uploading_unpaired_session) (Join_transfer ''r1'' ''t1'') \<and>
       status j' = Uploading)"
    by (rule step[OF conjI[OF oj' conjI[OF nc tj]]])
  \<comment> \<open>runs\<close>
  have a: "map_option status (session_after example_state forward_events ''t1'') = Some Completed"
    by (simp add: session_after_def forward_events_def example_state_def example_session_def
        handler_defs suspended_def)
  then obtain s' where s': "session_after example_state forward_events ''t1'' = Some s'" by auto
  then obtain \<sigma>' out where r: "run example_state forward_events = Inr (\<sigma>', out)"
    and t: "transferSessions \<sigma>' ''t1'' = Some s'" by (rule session_afterD)
  have c: "status example_session = Connected" by (simp add: example_session_def)
  note runs1 = status_transitions[OF example_facts(1), THEN conjunct2, rule_format,
      OF conjI[OF r conjI[OF ev(1) t]]]
  have h1: "status s' \<noteq> Waiting"
    "status_rank (status example_session) \<le> status_rank (status s')"
    using runs1[THEN conjunct1] runs1[THEN conjunct2, THEN conjunct2] example_facts(2) ev(2) c
    by simp_all
  have b: "map_option status (session_after stored_state example_events ''t1'') = Some Completed"
    by (simp add: session_after_def example_events_def stored_state_def stored_session_def
        example_state_def example_session_def handler_defs suspended_def)
  then obtain u' where u': "session_after stored_state example_events ''t1'' = Some u'" by auto
  then obtain \<sigma>'' out' where r': "run stored_state example_events = Inr (\<sigma>'', out')"
    and t': "transferSessions \<sigma>'' ''t1'' = Some u'" by (rule session_afterD)
  note runs2 = status_transitions[OF stored_facts(1), THEN conjunct2, rule_format,
      OF conjI[OF r' conjI[OF ev(3) t']]]
  have h2: "status u' \<in> {Uploading, Completed}"
    using runs2[THEN conjunct2, THEN conjunct1] stored_facts by simp
  have rk: "\<not> status_rank Uploading \<le> status_rank Connected" by simp
  from h0 h1 h2 j a b c ev rk example_facts stored_facts uploading_unpaired_facts
  show ?thesis by (simp add: list_ex_iff)
qed

section \<open>The fileInfo of a session\<close>

text \<open>
  C4 does not hold as stated: every chunk with index 0 from the sender stores fileInfo anew.
  A retry of chunk 0 after \<open>CHUNK_SAVE_ERROR\<close> changes \<open>uploadStartTime\<close>, and a chunk 0
  with other file data changes every field.
\<close>
theorem fileInfo_overwritten_counterexample:
  "map_option fileInfo (session_after waiting_state
      [Upload_chunk ''s1'' ''t1'' ''AB'' 0 2 ''a.txt'' 4 ''text/plain'' 3,
       Write_done 0 (Write_failed None) 4] ''t1'') =
     Some (Some \<lparr>fileName = ''a.txt'', fileSize = 4, fileType = ''text/plain'',
                  totalChunks = 2, uploadStartTime = 3\<rparr>) \<and>
   map_option fileInfo (session_after waiting_state
      [Upload_chunk ''s1'' ''t1'' ''AB'' 0 2 ''a.txt'' 4 ''text/plain'' 3,
       Write_done 0 (Write_failed None) 4,
       Upload_chunk ''s1'' ''t1'' ''AB'' 0 2 ''a.txt'' 4 ''text/plain'' 9,
       Write_done 1 Written 10] ''t1'') =
     Some (Some \<lparr>fileName = ''a.txt'', fileSize = 4, fileType = ''text/plain'',
                  totalChunks = 2, uploadStartTime = 9\<rparr>) \<and>
   map_option fileInfo (session_after waiting_state
      [Upload_chunk ''s1'' ''t1'' ''AB'' 0 2 ''a.txt'' 4 ''text/plain'' 3,
       Write_done 0 (Write_failed None) 4,
       Upload_chunk ''s1'' ''t1'' ''AB'' 0 2 ''a.txt'' 4 ''text/plain'' 9,
       Write_done 1 Written 10,
       Upload_chunk ''s1'' ''t1'' ''XYZ'' 0 7 ''b.bin'' 99 ''image/png'' 11,
       Write_done 2 Written 12] ''t1'') =
     Some (Some \<lparr>fileName = ''b.bin'', fileSize = 99, fileType = ''image/png'',
                  totalChunks = 7, uploadStartTime = 11\<rparr>)"
  by (simp add: session_after_def waiting_state_def waiting_session_def handler_defs suspended_def)

text \<open>
  C4, amended. Over every run of events that neither creates the transfer id anew nor contains
  an \<open>upload-chunk\<close> with index 0 from the session's sender, the fileInfo of the session is
  unchanged; an \<open>upload-chunk\<close> with index 0 from the sender replaces it, when it arrives,
  by the event's file name, size, type and chunk count and the current time, and it stays so
  when the write of that chunk settles, whether the write succeeds or fails.
\<close>
theorem fileInfo_after_run:
  assumes "transferSessions \<sigma> tid = Some s"
  shows "(\<forall>es \<sigma>' out s'. run \<sigma> es = Inr (\<sigma>', out) \<and>
            (\<forall>e\<in>set es. \<not> creates tid e \<and> \<not> first_chunk_from tid (sender s) e) \<and>
            transferSessions \<sigma>' tid = Some s' \<longrightarrow> fileInfo s' = fileInfo s) \<and>
         (\<forall>chunk tot name fsize ftype t0.
            map_option fileInfo (transferSessions
              (fst (upload_chunk \<sigma> (sender s) tid chunk 0 tot name fsize ftype t0)) tid) =
            Some (Some \<lparr>fileName = name, fileSize = fsize, fileType = ftype,
                         totalChunks = tot, uploadStartTime = t0\<rparr>)) \<and>
         (\<forall>chunk tot name fsize ftype t0 n result t1.
            map_option fileInfo (session_after \<sigma>
              [Upload_chunk (sender s) tid chunk 0 tot name fsize ftype t0,
               Write_done n result t1] tid) =
            Some (Some \<lparr>fileName = name, fileSize = fsize, fileType = ftype,
                         totalChunks = tot, uploadStartTime = t0\<rparr>))"
proof (intro conjI allI impI)
  fix es \<sigma>' out s'
  assume a: "run \<sigma> es = Inr (\<sigma>', out) \<and>
            (\<forall>e\<in>set es. \<not> creates tid e \<and> \<not> first_chunk_from tid (sender s) e) \<and>
            transferSessions \<sigma>' tid = Some s'"
  let ?P = "\<lambda>x. sender x = sender s \<and> fileInfo x = fileInfo s"
  let ?bad = "\<lambda>e. creates tid e \<or> first_chunk_from tid (sender s) e"
  have "?P s'"
  proof (rule run_session_invariant[where P = ?P and bad = ?bad and tid = tid and \<sigma> = \<sigma>
          and es = es and s = s])
    show "?P (session_step \<sigma>2 tid x e)" if "\<not> ?bad e" "?P x" for \<sigma>2 x e
      using that session_step_fileInfo[of tid x e \<sigma>2] session_step_sender[of \<sigma>2 tid x e]
      by auto
    show "run \<sigma> es = Inr (\<sigma>', out)" "transferSessions \<sigma>' tid = Some s'"
      "\<forall>e\<in>set es. \<not> ?bad e" using a by auto
  qed (use assms in auto)
  then show "fileInfo s' = fileInfo s" by simp
next
  fix chunk tot name fsize ftype t0
  show "map_option fileInfo (transferSessions
              (fst (upload_chunk \<sigma> (sender s) tid chunk 0 tot name fsize ftype t0)) tid) =
            Some (Some \<lparr>fileName = name, fileSize = fsize, fileType = ftype,
                         totalChunks = tot, uploadStartTime = t0\<rparr>)"
    using assms by (simp add: upload_chunk_def Let_def)
next
  fix chunk tot name fsize ftype t0 n result t1
  let ?u = "upload_chunk \<sigma> (sender s) tid chunk 0 tot name fsize ftype t0"
  let ?s1 = "s\<lparr>fileInfo := Some \<lparr>fileName = name, fileSize = fsize, fileType = ftype,
                         totalChunks = tot, uploadStartTime = t0\<rparr>, status := Uploading\<rparr>"
  have u: "transferSessions (fst ?u) tid = Some ?s1"
    using assms by (simp add: upload_chunk_def Let_def)
  have "session_after \<sigma> [Upload_chunk (sender s) tid chunk 0 tot name fsize ftype t0,
               Write_done n result t1] tid =
        transferSessions (fst (upload_chunk_resume (fst ?u) n result t1)) tid"
    by (simp add: session_after_def split: prod.splits)
  also have "\<dots> = Some (session_step (fst ?u) tid ?s1 (Write_done n result t1))"
    by (simp add: resume_sessions u)
  finally show "map_option fileInfo (session_after \<sigma>
              [Upload_chunk (sender s) tid chunk 0 tot name fsize ftype t0,
               Write_done n result t1] tid) =
            Some (Some \<lparr>fileName = name, fileSize = fsize, fileType = ftype,
                         totalChunks = tot, uploadStartTime = t0\<rparr>)"
    by (simp add: session_step_fileInfo)
qed

theorem fileInfo_after_run_witness:
  "transferSessions stored_state ''t1'' = Some stored_session \<and>
   fileInfo stored_session = Some \<lparr>fileName = ''a.txt'', fileSize = 6, fileType = ''text/plain'',
                                     totalChunks = 3, uploadStartTime = 3\<rparr> \<and>
   \<not> list_ex (creates ''t1'') forward_events \<and>
   \<not> list_ex (first_chunk_from ''t1'' (sender stored_session)) forward_events \<and>
   map_option fileInfo (session_after stored_state forward_events ''t1'') =
     Some (fileInfo stored_session) \<and>
   map_option fileInfo (transferSessions
      (fst (upload_chunk stored_state (sender stored_session) ''t1'' ''XYZ'' 0 7 ''b.bin'' 99
              ''image/png'' 11)) ''t1'') =
     Some (Some \<lparr>fileName = ''b.bin'', fileSize = 99, fileType = ''image/png'',
                  totalChunks = 7, uploadStartTime = 11\<rparr>) \<and>
   map_option fileInfo (session_after stored_state
      [Upload_chunk (sender stored_session) ''t1'' ''XYZ'' 0 7 ''b.bin'' 99 ''image/png'' 11,
       Write_done 0 (Write_failed None) 12] ''t1'') =
     Some (Some \<lparr>fileName = ''b.bin'', fileSize = 99, fileType = ''image/png'',
                  totalChunks = 7, uploadStartTime = 11\<rparr>)"
proof -
  have ev: "\<forall>e\<in>set forward_events. \<not> creates ''t1'' e \<and>
              \<not> first_chunk_from ''t1'' (sender stored_session) e"
    by (simp add: forward_events_def)
  have fi: "fileInfo stored_session = Some \<lparr>fileName = ''a.txt'', fileSize = 6,
      fileType = ''text/plain'', totalChunks = 3, uploadStartTime = 3\<rparr>"
    by (simp add: stored_session_def)
  obtain s' where s': "session_after stored_state forward_events ''t1'' = Some s'"
    by (simp add: session_after_def forward_events_def stored_state_def stored_session_def
        example_state_def example_session_def handler_defs suspended_def)
  then obtain \<sigma>' out where r: "run stored_state forward_events = Inr (\<sigma>', out)"
    and t: "transferSessions \<sigma>' ''t1'' = Some s'" by (rule session_afterD)
  note fi_run = fileInfo_after_run[OF stored_facts(1)]
  from fi_run[THEN conjunct1, rule_format, OF conjI[OF r conjI[OF ev t]]]
  have a: "fileInfo s' = fileInfo stored_session" .
  from fi_run[THEN conjunct2, THEN conjunct1, rule_format,
      of "''XYZ''" 7 "''b.bin''" 99 "''image/png''" 11]
  have b: "map_option fileInfo (transferSessions
      (fst (upload_chunk stored_state (sender stored_session) ''t1'' ''XYZ'' 0 7 ''b.bin'' 99
              ''image/png'' 11)) ''t1'') =
     Some (Some \<lparr>fileName = ''b.bin'', fileSize = 99, fileType = ''image/png'',
                  totalChunks = 7, uploadStartTime = 11\<rparr>)" .
  from fi_run[THEN conjunct2, THEN conjunct2, rule_format,
      of "''XYZ''" 7 "''b.bin''" 99 "''image/png''" 11 0 "Write_failed None" 12]
  have c: "map_option fileInfo (session_after stored_state
      [Upload_chunk (sender stored_session) ''t1'' ''XYZ'' 0 7 ''b.bin'' 99 ''image/png'' 11,
       Write_done 0 (Write_failed None) 12] ''t1'') =
     Some (Some \<lparr>fileName = ''b.bin'', fileSize = 99, fileType = ''image/png'',
                  totalChunks = 7, uploadStartTime = 11\<rparr>)" .
  from a b c s' ev fi stored_facts(1) show ?thesis by (simp add: list_ex_iff)
qed

section \<open>The chunk metadata of a session\<close>

text \<open>
  C5 does not hold as stated: the handler appends an entry for every chunk it has written,
  without looking at the list, so sending index 1 twice gives two entries for index 1.
\<close>
theorem duplicate_chunk_entries_counterexample:
  "map_option chunk_indices (session_after waiting_state
      [Upload_chunk ''s1'' ''t1'' ''CD'' 1 2 ''a.txt'' 4 ''text/plain'' 3,
       Write_done 0 Written 4,
       Upload_chunk ''s1'' ''t1'' ''CD'' 1 2 ''a.txt'' 4 ''text/plain'' 5,
       Write_done 1 Written 6] ''t1'') = Some [1, 1]"
  by (simp add: session_after_def waiting_state_def waiting_session_def handler_defs
      suspended_def chunk_indices_def)

lemma session_step_count:
  "length (filter (\<lambda>m. index m = i) (chunks (session_step \<sigma> tid s e))) =
     length (filter (\<lambda>m. index m = i) (chunks s)) + written_for \<sigma> tid i e"
  by (cases "(\<sigma>, tid, s, e)" rule: session_step.cases) (auto split: option.splits)

text \<open>
  C5, amended. Over every run of events that does not create the transfer id anew, and for
  every index, the number of entries for that index in the chunk metadata of the session, if
  the session is there afterwards, is the number before plus the number of times the write
  of a chunk with that index, uploaded by the sender to this session, has succeeded in the
  run: every successful write adds one entry, retransmissions included.
\<close>
theorem chunks_after_run:
  assumes "run \<sigma> es = Inr (\<sigma>', out)" and "\<forall>e\<in>set es. \<not> creates tid e"
    and "transferSessions \<sigma> tid = Some s" and "transferSessions \<sigma>' tid = Some s'"
  shows "length (filter (\<lambda>m. index m = i) (chunks s')) =
      length (filter (\<lambda>m. index m = i) (chunks s)) + written_count \<sigma> tid i es"
  using assms
proof (induction es arbitrary: \<sigma> out s)
  case Nil
  then show ?case by simp
next
  case (Cons e es)
  from Cons.prems(1) obtain \<sigma>1 out1 out2 where e: "on_event \<sigma> e = Inr (\<sigma>1, out1)"
    and r: "run \<sigma>1 es = Inr (\<sigma>', out2)" by (rule run_Cons_Inr)
  from Cons.prems(2) have nc: "\<not> creates tid e" and ncs: "\<forall>e\<in>set es. \<not> creates tid e" by simp_all
  let ?s1 = "session_step \<sigma> tid s e"
  from on_event_session[OF e Cons.prems(3) nc] run_absent[OF r ncs] Cons.prems(4)
  have s1: "transferSessions \<sigma>1 tid = Some ?s1" by auto
  from Cons.IH[OF r ncs s1 Cons.prems(4)]
  have "length (filter (\<lambda>m. index m = i) (chunks s')) =
     length (filter (\<lambda>m. index m = i) (chunks ?s1)) + written_count \<sigma>1 tid i es" .
  then show ?case using e by (simp add: session_step_count)
qed

theorem chunks_after_run_witness:
  "transferSessions stored_state ''t1'' = Some stored_session \<and>
   chunk_indices stored_session = [0, 1, 2] \<and>
   \<not> list_ex (creates ''t1'') retransmit_events \<and>
   written_count stored_state ''t1'' 1 retransmit_events = 2 \<and>
   map_option chunk_indices (session_after stored_state retransmit_events ''t1'')
     = Some [0, 1, 2, 1, 1] \<and>
   map_option (\<lambda>s. length (filter (\<lambda>m. index m = 1) (chunks s)))
     (session_after stored_state retransmit_events ''t1'') = Some 3"
proof -
  have ev: "\<forall>e\<in>set retransmit_events. \<not> creates ''t1'' e"
    by (simp add: retransmit_events_def)
  have ci: "chunk_indices stored_session = [0, 1, 2]"
    "length (filter (\<lambda>m. index m = 1) (chunks stored_session)) = 1"
    by (simp_all add: chunk_indices_def stored_session_def)
  have wc: "written_count stored_state ''t1'' 1 retransmit_events = 2"
    by (simp add: retransmit_events_def stored_state_def stored_session_def
        example_state_def example_session_def handler_defs suspended_def)
  have ix: "map_option chunk_indices (session_after stored_state retransmit_events ''t1'')
     = Some [0, 1, 2, 1, 1]"
    by (simp add: session_after_def retransmit_events_def stored_state_def stored_session_def
        example_state_def example_session_def handler_defs suspended_def chunk_indices_def)
  then obtain s' where s': "session_after stored_state retransmit_events ''t1'' = Some s'" by auto
  then obtain \<sigma>' out where r: "run stored_state retransmit_events = Inr (\<sigma>', out)"
    and t: "transferSessions \<sigma>' ''t1'' = Some s'" by (rule session_afterD)
  from chunks_after_run[OF r ev stored_facts(1) t, of 1] ci wc
  have "length (filter (\<lambda>m. index m = 1) (chunks s')) = 3" by simp
  with s' ix ev ci wc stored_facts(1) show ?thesis by (simp add: list_ex_iff)
qed

section \<open>Storage keys\<close>

text \<open>
  C6. The storage key of a chunk is \<open>path.join(TEMP_DIR, transferId_chunk_chunkIndex)\<close>, and
  \<open>path.join\<close> normalises the path. The transfer ids \<open>./t1\<close> and \<open>t1\<close> are different keys
  of the session registry, but their chunks with index 0 get the same file
  \<open>temp/t1_chunk_0\<close>: after both senders have uploaded, the metadata of \<open>t1\<close> records a
  chunk of 4 bytes under that path while the file holds the 2 bytes of \<open>./t1\<close>.
\<close>
theorem chunkPath_collision:
  "''./t1'' \<noteq> ''t1'' \<and>
   chunkPath ''./temp'' ''./t1'' 0 = ''temp/t1_chunk_0'' \<and>
   chunkPath ''./temp'' ''t1'' 0 = ''temp/t1_chunk_0'' \<and>
   map_option chunks (session_after (init ''./temp'') collision_events ''t1'') =
     Some [\<lparr>index = 0, path = ''temp/t1_chunk_0'', chunk_size = 4, timestamp = 4\<rparr>] \<and>
   map_option chunks (session_after (init ''./temp'') collision_events ''./t1'') =
     Some [\<lparr>index = 0, path = ''temp/t1_chunk_0'', chunk_size = 2, timestamp = 6\<rparr>] \<and>
   file_after (init ''./temp'') collision_events ''temp/t1_chunk_0'' = Some ''BB''"
  by (simp add: chunkPath_t1_0 chunkPath_dot_t1_0 session_after_def file_after_def
      collision_events_def init_def handler_defs suspended_def)

text \<open>
  The key construction is injective where the transfer ids contain no path separator: the
  decimal index can be read back, the name is appended to a prefix that only depends on the
  directory, and the index is what follows the last underscore.
\<close>

lemma digit_in: "digit n \<in> set ''0123456789''"
  unfolding digit_def by (rule nth_mem) simp

lemma show_nat_digits: "set (show_nat n) \<subseteq> set ''0123456789''"
proof (induction n rule: show_nat.induct)
  case (1 n)
  show ?case
  proof (cases "n < 10")
    case True
    then show ?thesis using digit_in[of n] by (subst show_nat.simps) simp
  next
    case False
    with 1 digit_in[of n] show ?thesis by (subst show_nat.simps) simp
  qed
qed

lemma digit_val_nth:
  assumes "k < 10"
  shows "digit_val (''0123456789'' ! k) = k"
proof -
  from assms have "k = 0 \<or> k = 1 \<or> k = 2 \<or> k = 3 \<or> k = 4 \<or> k = 5 \<or> k = 6 \<or> k = 7 \<or> k = 8 \<or> k = 9"
    by arith
  then show ?thesis by (elim disjE) (simp_all add: digit_val_def)
qed

lemma digit_val_digit: "digit_val (digit n) = n mod 10"
  by (simp add: digit_def digit_val_nth)

lemma show_nat_decode: "foldl (\<lambda>a c. 10 * a + digit_val c) 0 (show_nat n) = n"
proof (induction n rule: show_nat.induct)
  case (1 n)
  show ?case
  proof (cases "n < 10")
    case True
    then show ?thesis by (subst show_nat.simps) (simp add: digit_val_digit)
  next
    case False
    with 1 show ?thesis by (subst show_nat.simps) (simp add: digit_val_digit)
  qed
qed

lemma show_nat_inj: "show_nat i = show_nat j \<Longrightarrow> i = j"
  by (metis show_nat_decode)

lemma split_sep_nonempty: "split_sep s \<noteq> []"
  by (induction s) (auto split: list.splits)

lemma split_sep_no_sep: "CHR ''/'' \<notin> set s \<Longrightarrow> split_sep s = [s]"
  by (induction s) auto

lemma split_sep_append: "split_sep (a @ CHR ''/'' # b) = split_sep a @ split_sep b"
  using split_sep_nonempty by (induction a) (auto split: list.splits)

lemma normalizeSegs_append:
  "normalizeSegs aa res (segs @ ss) = normalizeSegs aa (rev (normalizeSegs aa res segs)) ss"
  by (induction aa res segs rule: normalizeSegs.induct) (auto split: list.splits)

lemma join_sep_snoc: "join_sep (xs @ [n]) = (if xs = [] then n else join_sep xs @ ''/'' @ n)"
  by (induction xs rule: join_sep.induct) auto

lemma path_join_plain_name:
  assumes "CHR ''/'' \<notin> set nm" and "nm \<noteq> []" and "nm \<noteq> ''.''" and "nm \<noteq> ''..''"
  shows "path_join [dir, nm] =
    (if dir = [] then []
     else (if hd dir = CHR ''/'' then ''/'' else []) @
          (let xs = normalizeSegs (hd dir \<noteq> CHR ''/'') [] (split_sep dir)
           in if xs = [] then [] else join_sep xs @ ''/'')) @ nm"
proof (cases "dir = []")
  case True
  from assms have hl: "hd nm \<noteq> CHR ''/''" "last nm \<noteq> CHR ''/''"
    by (metis hd_in_set, metis last_in_set)
  have "normalize nm = nm"
    using assms hl by (simp add: normalize_def split_sep_no_sep Let_def)
  with True assms show ?thesis by (simp add: path_join_def)
next
  case False
  define p where "p = dir @ CHR ''/'' # nm"
  define xs where "xs = normalizeSegs (hd dir \<noteq> CHR ''/'') [] (split_sep dir)"
  from assms have l: "last nm \<noteq> CHR ''/''" by (metis last_in_set)
  have pj: "path_join [dir, nm] = normalize p"
    using False assms by (simp add: path_join_def p_def)
  have pne: "p \<noteq> []" by (simp add: p_def)
  have h: "hd p = hd dir" using False by (simp add: p_def)
  have la: "last p = last nm" using assms by (simp add: p_def)
  have sp: "split_sep p = split_sep dir @ [nm]"
    using assms by (simp add: p_def split_sep_append split_sep_no_sep)
  have ns: "normalizeSegs (hd dir \<noteq> CHR ''/'') [] (split_sep p) = xs @ [nm]"
    using assms unfolding sp xs_def by (simp add: normalizeSegs_append)
  have js: "join_sep (xs @ [nm]) = (if xs = [] then [] else join_sep xs @ ''/'') @ nm"
    by (simp add: join_sep_snoc)
  have jne: "join_sep (xs @ [nm]) \<noteq> []"
    unfolding js using assms by simp
  have "normalize p = (if hd dir = CHR ''/'' then ''/'' else []) @ join_sep (xs @ [nm])"
    unfolding normalize_def Let_def using pne jne l by (simp only: h la ns if_False not_not if_True append_Nil2 split: if_splits) 
  with pj js False show ?thesis by (simp add: xs_def Let_def)
qed

lemma chunk_name_inj:
  assumes "tid @ ''_chunk_'' @ show_nat i = tid' @ ''_chunk_'' @ show_nat j"
  shows "tid = tid' \<and> i = j"
proof -
  let ?P = "\<lambda>c. c \<noteq> CHR ''_''"
  have nd: "CHR ''_'' \<notin> set (show_nat n)" for n
    using show_nat_digits[of n] by auto
  have tw: "takeWhile ?P (rev (t @ ''_chunk_'' @ show_nat n)) = rev (show_nat n)" for t n
    using nd[of n] by (auto simp: takeWhile_append1 takeWhile_tail)
  have "rev (show_nat i) = takeWhile ?P (rev (tid @ ''_chunk_'' @ show_nat i))"
    by (rule tw[symmetric])
  also have "\<dots> = takeWhile ?P (rev (tid' @ ''_chunk_'' @ show_nat j))"
    by (simp only: assms)
  also have "\<dots> = rev (show_nat j)" by (rule tw)
  finally have "show_nat i = show_nat j" by (simp only: rev_is_rev_conv)
  then have ij: "i = j" by (rule show_nat_inj)
  define sfx where "sfx = ''_chunk_'' @ show_nat j"
  from assms ij have "tid @ sfx = tid' @ sfx" by (simp only: sfx_def)
  then have "tid = tid'" by (simp only: append_same_eq)
  with ij show ?thesis by simp
qed

lemma chunkPath_inj_plain:
  assumes "CHR ''/'' \<notin> set tid" and "CHR ''/'' \<notin> set tid'"
    and "chunkPath dir tid i = chunkPath dir tid' j"
  shows "tid = tid' \<and> i = j"
proof -
  define q where "q = (if dir = [] then []
     else (if hd dir = CHR ''/'' then ''/'' else []) @
          (let xs = normalizeSegs (hd dir \<noteq> CHR ''/'') [] (split_sep dir)
           in if xs = [] then [] else join_sep xs @ ''/''))"
  have p: "chunkPath dir t n = q @ (t @ ''_chunk_'' @ show_nat n)" if "CHR ''/'' \<notin> set t" for t n
  proof -
    let ?nm = "t @ ''_chunk_'' @ show_nat n"
    have a: "CHR ''/'' \<notin> set ?nm"
      using show_nat_digits[of n] that by auto
    have m: "CHR ''_'' \<in> set ?nm" by simp
    have d: "x \<noteq> ''.'' \<and> x \<noteq> ''..'' \<and> x \<noteq> []" if "CHR ''_'' \<in> set x" for x
      using that by auto
    from d[OF m] have b: "?nm \<noteq> []" and c: "?nm \<noteq> ''.''" and e: "?nm \<noteq> ''..''" by blast+
    show ?thesis unfolding chunkPath_def q_def by (rule path_join_plain_name[OF a b c e])
  qed
  from assms(3) have "q @ (tid @ ''_chunk_'' @ show_nat i) = q @ (tid' @ ''_chunk_'' @ show_nat j)"
    by (simp only: p[OF assms(1)] p[OF assms(2)])
  then have "tid @ ''_chunk_'' @ show_nat i = tid' @ ''_chunk_'' @ show_nat j"
    by (simp only: same_append_eq)
  then show ?thesis by (rule chunk_name_inj)
qed

section \<open>Joining a session that has a receiver\<close>

text \<open>
  C7. On a session whose receiver is bound (\<open>session.receiver\<close> is truthy), a join from any
  socket gets \<open>RECEIVER_EXISTS\<close> and the whole state, the session with it, is unchanged.
  So over every run of events that does not create the transfer id anew, the session, as long
  as it exists, keeps the receiver it has: no second identity is ever bound.
\<close>
theorem join_transfer_receiver_exists:
  assumes "transferSessions \<sigma> tid = Some s" and "truthy (receiver s)"
  shows "join_transfer \<sigma> c tid = Inr (\<sigma>, [(To_socket c, Error_event RECEIVER_EXISTS None)]) \<and>
    (\<forall>es \<sigma>' out s'. run \<sigma> es = Inr (\<sigma>', out) \<and> (\<forall>e\<in>set es. \<not> creates tid e) \<and>
        transferSessions \<sigma>' tid = Some s' \<longrightarrow> receiver s' = receiver s)"
proof (intro conjI allI impI)
  show "join_transfer \<sigma> c tid = Inr (\<sigma>, [(To_socket c, Error_event RECEIVER_EXISTS None)])"
    using assms by (simp add: join_transfer_def)
next
  fix es \<sigma>' out s'
  assume a: "run \<sigma> es = Inr (\<sigma>', out) \<and> (\<forall>e\<in>set es. \<not> creates tid e) \<and>
        transferSessions \<sigma>' tid = Some s'"
  have "truthy (receiver s') \<and> receiver s' = receiver s"
  proof (rule run_session_invariant[where P = "\<lambda>x. truthy (receiver x) \<and> receiver x = receiver s"
        and bad = "creates tid" and tid = tid])
    show "run \<sigma> es = Inr (\<sigma>', out)" using a by simp
    show "\<forall>e\<in>set es. \<not> creates tid e" using a by simp
    show "transferSessions \<sigma> tid = Some s" by fact
    show "transferSessions \<sigma>' tid = Some s'" using a by simp
    show "truthy (receiver s) \<and> receiver s = receiver s" using assms by simp
  qed (auto simp: session_step_receiver)
  then show "receiver s' = receiver s" by simp
qed

theorem join_transfer_receiver_exists_witness:
  "transferSessions example_state ''t1'' = Some example_session \<and> truthy (receiver example_session) \<and>
   join_transfer example_state ''x9'' ''t1''
     = Inr (example_state, [(To_socket ''x9'', Error_event RECEIVER_EXISTS None)]) \<and>
   \<not> list_ex (creates ''t1'') example_events \<and>
   map_option receiver (session_after example_state example_events ''t1'') = Some (Some ''r1'')"
proof -
  note ex = example_facts(1,2)
  have ev: "\<forall>e\<in>set example_events. \<not> creates ''t1'' e"
    by (simp add: example_events_def)
  obtain s' where s': "session_after example_state example_events ''t1'' = Some s'"
    by (simp add: session_after_def example_events_def example_state_def example_session_def
        handler_defs suspended_def)
  then obtain \<sigma>' out where r: "run example_state example_events = Inr (\<sigma>', out)"
    and t: "transferSessions \<sigma>' ''t1'' = Some s'" by (rule session_afterD)
  from join_transfer_receiver_exists[OF ex, of "''x9''"] r ev t
  have "join_transfer example_state ''x9'' ''t1''
     = Inr (example_state, [(To_socket ''x9'', Error_event RECEIVER_EXISTS None)])"
    and "receiver s' = receiver example_session" by blast+
  with ex s' ev example_facts(3) show ?thesis by (simp add: list_ex_iff)
qed

section \<open>Rejected uploads\<close>

text \<open>
  C8. An \<open>upload-chunk\<close> for an existing session from a socket that is not the session's
  sender answers that socket with \<open>UNAUTHORIZED\<close> and nothing else happens: the whole state
  (sessions with their chunk lists, status and fileInfo, and the chunk files) is as before,
  and no event goes to anyone else.
\<close>
theorem upload_chunk_unauthorized:
  assumes "transferSessions \<sigma> tid = Some s" and "sender s \<noteq> c"
  shows "upload_chunk \<sigma> c tid chunk i tot name fsize ftype t0
           = (\<sigma>, [(To_socket c, Error_event UNAUTHORIZED None)])"
  using assms by (simp add: upload_chunk_def)

theorem upload_chunk_unauthorized_witness:
  "transferSessions example_state ''t1'' = Some example_session \<and> sender example_session \<noteq> ''r1'' \<and>
   upload_chunk example_state ''r1'' ''t1'' ''AB'' 0 2 ''a.txt'' 20 ''text/plain'' 3
     = (example_state, [(To_socket ''r1'', Error_event UNAUTHORIZED None)])"
proof -
  have h1: "transferSessions example_state ''t1'' = Some example_session"
    by (simp add: example_state_def)
  have h2: "sender example_session \<noteq> ''r1''"
    by (simp add: example_session_def)
  from upload_chunk_unauthorized[OF h1 h2] h1 h2 show ?thesis by simp
qed

section \<open>Cleanup\<close>

lemma unlink_chunks_None: "fs p = None \<Longrightarrow> unlink_chunks fs ms ok p = None"
  by (induction ms arbitrary: fs ok) (auto simp: unlink_def)

lemma unlink_chunks_other: "p \<notin> path ` set ms \<Longrightarrow> unlink_chunks fs ms ok p = fs p"
  by (induction ms arbitrary: fs ok) (auto simp: unlink_def)

lemma unlink_chunks_deleted:
  "j < length ms \<Longrightarrow> ok j \<Longrightarrow> unlink_chunks fs ms ok (path (ms ! j)) = None"
proof (induction ms arbitrary: fs ok j)
  case Nil
  then show ?case by simp
next
  case (Cons m ms)
  show ?case
  proof (cases j)
    case 0
    with Cons.prems have "unlink fs (path m) (ok 0) (path m) = None"
      by (auto simp: unlink_def)
    with 0 show ?thesis by (simp add: unlink_chunks_None)
  next
    case (Suc k)
    with Cons.prems Cons.IH[of k "\<lambda>i. ok (Suc i)"] show ?thesis by simp
  qed
qed

text \<open>
  C9. \<open>cleanupTransfer\<close> on an absent transfer id returns the state as it is. On a present
  one it removes the session from the registry whatever the \<open>unlink\<close> calls do; every chunk
  file named by the session's metadata whose \<open>unlink\<close> is not made to fail is gone afterwards,
  whatever happens to the others; files that the metadata does not name are untouched; and a
  second cleanup of the same id changes nothing.
\<close>
theorem cleanupTransfer_correct:
  "(transferSessions \<sigma> tid = None \<longrightarrow> cleanupTransfer \<sigma> tid ok = \<sigma>) \<and>
   (transferSessions \<sigma> tid = Some s \<longrightarrow>
      transferSessions (cleanupTransfer \<sigma> tid ok) = (transferSessions \<sigma>)(tid := None) \<and>
      (\<forall>j. j < length (chunks s) \<and> ok j \<longrightarrow>
           files (cleanupTransfer \<sigma> tid ok) (path (chunks s ! j)) = None) \<and>
      (\<forall>p. p \<notin> path ` set (chunks s) \<or> files \<sigma> p = None \<longrightarrow>
           files (cleanupTransfer \<sigma> tid ok) p = files \<sigma> p) \<and>
      cleanupTransfer (cleanupTransfer \<sigma> tid ok) tid ok' = cleanupTransfer \<sigma> tid ok)"
  by (auto simp: cleanupTransfer_def unlink_chunks_deleted unlink_chunks_other unlink_chunks_None
      split: option.splits)

theorem cleanupTransfer_correct_witness:
  "transferSessions stored_state ''t1'' = Some stored_session \<and>
   transferSessions (cleanupTransfer stored_state ''t1'' (\<lambda>i. i \<noteq> 1)) ''t1'' = None \<and>
   files (cleanupTransfer stored_state ''t1'' (\<lambda>i. i \<noteq> 1)) ''temp/t1_chunk_0'' = None \<and>
   files (cleanupTransfer stored_state ''t1'' (\<lambda>i. i \<noteq> 1)) ''temp/t1_chunk_1'' = Some ''CD'' \<and>
   files (cleanupTransfer stored_state ''t1'' (\<lambda>i. i \<noteq> 1)) ''temp/t1_chunk_2'' = None \<and>
   files (cleanupTransfer stored_state ''t1'' (\<lambda>i. i \<noteq> 1)) ''temp/zz_chunk_0'' = Some ''ZZ'' \<and>
   cleanupTransfer (cleanupTransfer stored_state ''t1'' (\<lambda>i. i \<noteq> 1)) ''t1'' (\<lambda>i. True)
     = cleanupTransfer stored_state ''t1'' (\<lambda>i. i \<noteq> 1) \<and>
   transferSessions stored_state ''zz'' = None \<and>
   cleanupTransfer stored_state ''zz'' (\<lambda>i. True) = stored_state"
proof -
  let ?ok = "\<lambda>i::nat. i \<noteq> 1"
  let ?c = "cleanupTransfer stored_state ''t1'' ?ok"
  have s: "transferSessions stored_state ''t1'' = Some stored_session"
    and z: "transferSessions stored_state ''zz'' = None"
    by (simp_all add: stored_state_def)
  have ch: "length (chunks stored_session) = 3"
    "path (chunks stored_session ! 0) = ''temp/t1_chunk_0''"
    "path (chunks stored_session ! 2) = ''temp/t1_chunk_2''"
    "''temp/zz_chunk_0'' \<notin> path ` set (chunks stored_session)"
    "files stored_state ''temp/zz_chunk_0'' = Some ''ZZ''"
    by (simp_all add: stored_session_def stored_state_def)
  note t = cleanupTransfer_correct[of stored_state "''t1''" ?ok stored_session "\<lambda>i. True"]
  from t s have a: "transferSessions ?c ''t1'' = None" by simp
  from t s have del: "\<And>j. j < length (chunks stored_session) \<Longrightarrow> ?ok j \<Longrightarrow>
      files ?c (path (chunks stored_session ! j)) = None" by blast
  from del[of 0] del[of 2] ch have b: "files ?c ''temp/t1_chunk_0'' = None"
    "files ?c ''temp/t1_chunk_2'' = None" by simp_all
  from t s ch have c: "files ?c ''temp/zz_chunk_0'' = Some ''ZZ''" by metis
  from t s have d: "cleanupTransfer ?c ''t1'' (\<lambda>i. True) = ?c" by blast
  from cleanupTransfer_correct[of stored_state "''zz''" "\<lambda>i. True"] z
  have e: "cleanupTransfer stored_state ''zz'' (\<lambda>i. True) = stored_state" by blast
  have f: "files ?c ''temp/t1_chunk_1'' = Some ''CD''"
    by (simp add: cleanupTransfer_def stored_state_def stored_session_def unlink_def)
  from s z a b c d e f show ?thesis by simp
qed

section \<open>Completion\<close>

text \<open>
  C10. \<open>upload-complete\<close> for an existing session has no check of the caller: for every
  socket \<open>c\<close> (sender, receiver or any other) it sets the status to completed and
  \<open>completedAt\<close>, logs \<open>COMPLETE\<close>, schedules the cleanup timer and emits
  \<open>transfer-complete\<close> with the session's fileInfo to the receiver if one is bound.
\<close>
theorem upload_complete_any_caller:
  assumes "transferSessions \<sigma> tid = Some s"
  shows "upload_complete \<sigma> c tid now =
     (\<sigma>\<lparr>transferSessions := (transferSessions \<sigma>)(tid \<mapsto> s\<lparr>status := Completed, completedAt := Some now\<rparr>),
        activityLog := activityLog \<sigma> @ [(''COMPLETE'', tid, c)],
        timers := timers \<sigma> @ [tid]\<rparr>,
      if truthy (receiver s) then [(To_room (the (receiver s)), Transfer_complete tid (fileInfo s))] else [])"
  using assms by (simp add: upload_complete_def logActivity_def Let_def)

theorem upload_complete_any_caller_witness:
  "transferSessions example_state ''t1'' = Some example_session \<and>
   ''x9'' \<noteq> sender example_session \<and> Some ''x9'' \<noteq> receiver example_session \<and>
   activeConnections example_state ''x9'' = None \<and>
   upload_complete example_state ''x9'' ''t1'' 7 =
     (example_state\<lparr>transferSessions := (transferSessions example_state)
          (''t1'' \<mapsto> example_session\<lparr>status := Completed, completedAt := Some 7\<rparr>),
        activityLog := activityLog example_state @ [(''COMPLETE'', ''t1'', ''x9'')],
        timers := [''t1'']\<rparr>,
      [(To_room ''r1'', Transfer_complete ''t1'' None)])"
proof -
  have h1: "transferSessions example_state ''t1'' = Some example_session"
    by (simp add: example_state_def)
  have h2: "truthy (receiver example_session)" "receiver example_session = Some ''r1''"
    "fileInfo example_session = None" "sender example_session = ''s1''"
    by (simp_all add: example_session_def truthy_def)
  have h3: "timers example_state = []" "activeConnections example_state ''x9'' = None"
    by (simp_all add: example_state_def)
  from upload_complete_any_caller[OF h1, of "''x9''" 7] h1 h2 h3 show ?thesis by simp
qed

end
